theory Spec2Isabelle
  imports Complex_Main "HOL-Library.AList" "HOL-Library.Sublist"
begin

section \<open>Conventions\<close>

text \<open>
  A shallow embedding of the capture-to-metrics pipeline and of the scoring engine of
  draw-captcha (\<^verbatim>\<open>types.ts\<close>, \<^verbatim>\<open>metrics.ts\<close>, the \<^verbatim>\<open>useStrokeCapture\<close> hook and
  \<^verbatim>\<open>scoring.ts\<close>).

  \<^item> A JavaScript \<^verbatim>\<open>number\<close> that carries a measurement is a \<^typ>\<open>real\<close>: arithmetic is
    exact, there is no rounding, no NaN and no infinity. A \<^verbatim>\<open>number\<close> that only counts
    (an array length, the stroke counter, \<^verbatim>\<open>directionChanges\<close>) is a \<^typ>\<open>nat\<close>.
  \<^item> An array is a list; \<^verbatim>\<open>push\<close> appends at the end. A \<^verbatim>\<open>for (const a of xs)\<close> loop
    is a \<open>fold\<close> over the list.
  \<^item> A \<^verbatim>\<open>for (let i = a; i < n; i++)\<close> loop is \<open>for_loop a n body\<close>, the body a function
    of the index and of the variables the loop assigns.
  \<^item> A \<^verbatim>\<open>Map\<close> is an association list in insertion order with distinct keys.
  \<^item> A scoring plugin is foreign code: what it throws is a value (\<open>Inl\<close>), and the state
    it may touch outside the engine is a parameter \<open>'w\<close> threaded through every call.
  \<^item> The clocks and the random identifier (\<^verbatim>\<open>performance.now()\<close>, \<^verbatim>\<open>Date.now()\<close>,
    \<^verbatim>\<open>crypto.randomUUID()\<close>) are arguments of the operation that reads them.
\<close>

function for_loop :: "nat \<Rightarrow> nat \<Rightarrow> (nat \<Rightarrow> 's \<Rightarrow> 's) \<Rightarrow> 's \<Rightarrow> 's" where
  "for_loop i n body st = (if i < n then for_loop (Suc i) n body (body i st) else st)"
  by pat_completeness auto
termination
  by (relation "measure (\<lambda>(i, n, body, st). n - i)") auto

declare for_loop.simps [simp del]

text \<open>\<^verbatim>\<open>xs.reduce((a, b) => a + b, 0)\<close>\<close>

definition reduce_sum :: "real list \<Rightarrow> real" where
  "reduce_sum xs = foldl (\<lambda>a b. a + b) 0 xs"

text \<open>
  \<^verbatim>\<open>xs.length > 0 ? xs.reduce((a, b) => a + b, 0) / xs.length : 0\<close>, the expression the
  source writes out three times.
\<close>

definition mean_or_zero :: "real list \<Rightarrow> real" where
  "mean_or_zero xs = (if length xs > 0 then reduce_sum xs / real (length xs) else 0)"

text \<open>
  \<^verbatim>\<open>xs.length > 0 ? Math.max(...xs) : 0\<close>. \<^verbatim>\<open>Math.max\<close> of no argument is \<open>-\<infinity>\<close>, which
  the guard never lets through, so the guard and the maximum are one definition.
\<close>

definition max_or_zero :: "real list \<Rightarrow> real" where
  "max_or_zero xs = (case xs of [] \<Rightarrow> 0 | v # vs \<Rightarrow> fold max vs v)"


section \<open>Data contracts (types.ts)\<close>

datatype pointerType = mouse | touch | pen

record CapturePoint =
  x :: real
  y :: real
  timestamp :: real
  pressure :: real
  pointerType :: pointerType

text \<open>The field \<^verbatim>\<open>length\<close> of the source is \<open>length_px\<close> here (\<open>length\<close> is the list function).\<close>

record StrokeMetrics =
  length_px :: real
  duration :: real
  avgVelocity :: real
  maxVelocity :: real
  avgAcceleration :: real
  maxAcceleration :: real
  directionChanges :: nat

record Stroke =
  id :: nat
  points :: "CapturePoint list"
  startTime :: real
  endTime :: real
  metrics :: StrokeMetrics

record CaptchaSession =
  sessionId :: string
  prompt :: string
  strokes :: "Stroke list"
  startTime :: real
  endTime :: real
  startTimestamp :: real
  canvasWidth :: real
  canvasHeight :: real
  totalDuration :: real
  strokeCount :: nat
  pausesBetweenStrokes :: "real list"
  totalPathLength :: real
  avgVelocity :: real

record ScoringResult =
  score :: real
  confidence :: real
  signals :: "(string \<times> real) list"
  details :: "string option"

text \<open>
  What a \<^verbatim>\<open>throw\<close> can carry: an \<^verbatim>\<open>Error\<close> object with its message, or any other value.
\<close>

datatype thrown = ErrorObject string | OtherValue

record 'w ScoringAlgorithm =
  name :: string
  version :: string
  score :: "CaptchaSession \<Rightarrow> 'w \<Rightarrow> (thrown + ScoringResult) \<times> 'w"


section \<open>Stroke metrics (metrics.ts)\<close>

definition distance :: "CapturePoint \<Rightarrow> CapturePoint \<Rightarrow> real" where
  "distance a b = sqrt ((x b - x a)\<^sup>2 + (y b - y a)\<^sup>2)"

text \<open>
  \<^verbatim>\<open>Math.atan2(dy, dx)\<close> on the reals: the angle of the vector \<open>(dx, dy)\<close> in \<open>(-\<pi>, \<pi>]\<close>, and
  0 for the zero vector.
\<close>

definition atan2 :: "real \<Rightarrow> real \<Rightarrow> real" where
  "atan2 dy dx =
     (if dx > 0 then arctan (dy / dx)
      else if dx < 0 then (if dy \<ge> 0 then arctan (dy / dx) + pi else arctan (dy / dx) - pi)
      else if dy > 0 then pi / 2
      else if dy < 0 then - (pi / 2)
      else 0)"

definition angle :: "CapturePoint \<Rightarrow> CapturePoint \<Rightarrow> real" where
  "angle a b = atan2 (y b - y a) (x b - x a)"

text \<open>The variables the loop of \<^verbatim>\<open>computeStrokeMetrics\<close> assigns.\<close>

record metrics_vars =
  totalLength :: real
  velocities :: "real list"
  accelerations :: "real list"
  directionChanges :: nat
  prevAngle :: "real option"

definition metrics_body :: "CapturePoint list \<Rightarrow> nat \<Rightarrow> metrics_vars \<Rightarrow> metrics_vars" where
  "metrics_body pts i st =
     (let dist = distance (pts ! (i - 1)) (pts ! i);
          dt = timestamp (pts ! i) - timestamp (pts ! (i - 1));
          st1 = st\<lparr>totalLength := totalLength st + dist\<rparr>;
          st2 = (if dt > 0 then
                   (let velocity = dist / dt;
                        vs = velocities st1 @ [velocity];
                        st1' = st1\<lparr>velocities := vs\<rparr>
                    in if length vs > 1
                       then st1'\<lparr>accelerations := accelerations st1' @
                                    [\<bar>velocity - vs ! (length vs - 2)\<bar> / dt]\<rparr>
                       else st1')
                 else st1);
          currentAngle = angle (pts ! (i - 1)) (pts ! i);
          st3 = (case prevAngle st2 of
                   None \<Rightarrow> st2
                 | Some prev \<Rightarrow>
                    (let angleDiff = \<bar>currentAngle - prev\<bar>;
                         angleDiff' = (if angleDiff > pi then 2 * pi - angleDiff else angleDiff)
                     in if angleDiff' > pi / 6
                        then st2\<lparr>metrics_vars.directionChanges :=
                                    metrics_vars.directionChanges st2 + 1\<rparr>
                        else st2))
      in st3\<lparr>prevAngle := Some currentAngle\<rparr>)"

text \<open>Their values before the loop.\<close>

definition metrics_init :: metrics_vars where
  "metrics_init =
     \<lparr>totalLength = 0, velocities = [], accelerations = [],
      directionChanges = 0, prevAngle = None\<rparr>"

definition computeStrokeMetrics :: "CapturePoint list \<Rightarrow> StrokeMetrics" where
  "computeStrokeMetrics pts =
     (if length pts < 2 then
        \<lparr>length_px = 0, duration = 0, avgVelocity = 0, maxVelocity = 0,
         avgAcceleration = 0, maxAcceleration = 0, directionChanges = 0\<rparr>
      else
        (let st = for_loop 1 (length pts) (metrics_body pts) metrics_init
         in \<lparr>length_px = totalLength st,
             duration = timestamp (pts ! (length pts - 1)) - timestamp (pts ! 0),
             avgVelocity = mean_or_zero (velocities st),
             maxVelocity = max_or_zero (velocities st),
             avgAcceleration = mean_or_zero (accelerations st),
             maxAcceleration = max_or_zero (accelerations st),
             directionChanges = metrics_vars.directionChanges st\<rparr>))"

section \<open>Capture hook and session aggregator (useStrokeCapture)\<close>

text \<open>
  The state the hook keeps between calls: the two \<^verbatim>\<open>useState\<close> cells and the four
  \<^verbatim>\<open>useRef\<close> cells. State updates are applied in the order they are issued.
\<close>

record capture =
  strokes :: "Stroke list"
  isDrawing :: bool
  currentPoints :: "CapturePoint list"
  strokeId :: nat
  sessionStart :: real
  sessionTimestamp :: real

definition initial_capture :: capture where
  "initial_capture =
     \<lparr>strokes = [], isDrawing = False, currentPoints = [], strokeId = 0,
      sessionStart = 0, sessionTimestamp = 0\<rparr>"

definition startSession :: "real \<Rightarrow> real \<Rightarrow> capture \<Rightarrow> capture" where
  "startSession performance_now date_now h =
     h\<lparr>strokes := [], strokeId := 0,
       sessionStart := performance_now, sessionTimestamp := date_now\<rparr>"

definition beginStroke :: "capture \<Rightarrow> capture" where
  "beginStroke h = h\<lparr>isDrawing := True, currentPoints := []\<rparr>"

definition addPoint :: "CapturePoint \<Rightarrow> capture \<Rightarrow> capture" where
  "addPoint point h = h\<lparr>currentPoints := currentPoints h @ [point]\<rparr>"

definition endStroke :: "capture \<Rightarrow> capture" where
  "endStroke h =
     (let pts = currentPoints h;
          h1 = h\<lparr>isDrawing := False, currentPoints := []\<rparr>
      in if length pts < 2 then h1
         else
           (let m = computeStrokeMetrics pts;
                stroke = \<lparr>id = strokeId h1, points = pts,
                          Stroke.startTime = timestamp (pts ! 0),
                          Stroke.endTime = timestamp (pts ! (length pts - 1)),
                          metrics = m\<rparr>;
                h2 = h1\<lparr>strokeId := strokeId h1 + 1\<rparr>
            in h2\<lparr>strokes := strokes h2 @ [stroke]\<rparr>))"

text \<open>\<^verbatim>\<open>prev.slice(0, -1)\<close> is the array without its last element, and empty on the empty array.\<close>

definition undo :: "capture \<Rightarrow> capture" where
  "undo h = h\<lparr>strokes := butlast (strokes h)\<rparr>"

definition clear :: "capture \<Rightarrow> capture" where
  "clear h = h\<lparr>strokes := []\<rparr>"

definition pauses_body :: "Stroke list \<Rightarrow> nat \<Rightarrow> real list \<Rightarrow> real list" where
  "pauses_body ss i pauses = pauses @ [Stroke.startTime (ss ! i) - Stroke.endTime (ss ! (i - 1))]"

definition buildSession ::
  "real \<Rightarrow> string \<Rightarrow> string \<Rightarrow> real \<Rightarrow> real \<Rightarrow> capture \<Rightarrow> CaptchaSession" where
  "buildSession performance_now randomUUID prompt' canvasWidth' canvasHeight' h =
     (let ss = strokes h;
          endTime' = performance_now;
          startTime' = sessionStart h;
          pauses = for_loop 1 (length ss) (pauses_body ss) [];
          totalPathLength' = foldl (\<lambda>sum s. sum + length_px (metrics s)) 0 ss;
          vels = map (\<lambda>s. StrokeMetrics.avgVelocity (metrics s)) ss;
          avgVelocity' = mean_or_zero vels
      in \<lparr>sessionId = randomUUID,
          prompt = prompt',
          CaptchaSession.strokes = ss,
          CaptchaSession.startTime = startTime',
          CaptchaSession.endTime = endTime',
          startTimestamp = sessionTimestamp h,
          canvasWidth = canvasWidth',
          canvasHeight = canvasHeight',
          totalDuration = endTime' - startTime',
          strokeCount = length ss,
          pausesBetweenStrokes = pauses,
          totalPathLength = totalPathLength',
          CaptchaSession.avgVelocity = avgVelocity'\<rparr>)"

text \<open>The calls a component can make on the hook, and a run of them from a state.\<close>

datatype capture_call =
    StartSession real real
  | BeginStroke
  | AddPoint CapturePoint
  | EndStroke
  | Undo
  | Clear

fun capture_step :: "capture \<Rightarrow> capture_call \<Rightarrow> capture" where
  "capture_step h (StartSession performance_now date_now) = startSession performance_now date_now h"
| "capture_step h BeginStroke = beginStroke h"
| "capture_step h (AddPoint p) = addPoint p h"
| "capture_step h EndStroke = endStroke h"
| "capture_step h Undo = undo h"
| "capture_step h Clear = clear h"

definition capture_run :: "capture \<Rightarrow> capture_call list \<Rightarrow> capture" where
  "capture_run h calls = foldl capture_step h calls"


section \<open>Scoring engine (scoring.ts)\<close>

text \<open>
  A \<^verbatim>\<open>Map<string, ScoringResult>\<close>: \<^verbatim>\<open>set\<close> replaces the value of a key that is present,
  where it stands, and appends a new key; \<^verbatim>\<open>values()\<close> iterates in insertion order.
\<close>

type_synonym 'v js_map = "(string \<times> 'v) list"

fun Map_set :: "'v js_map \<Rightarrow> string \<Rightarrow> 'v \<Rightarrow> 'v js_map" where
  "Map_set [] k v = [(k, v)]"
| "Map_set ((k', v') # m) k v = (if k' = k then (k, v) # m else (k', v') # Map_set m k v)"

definition Map_size :: "'v js_map \<Rightarrow> nat" where
  "Map_size m = length m"

definition Map_values :: "'v js_map \<Rightarrow> 'v list" where
  "Map_values m = map snd m"

definition Map_keys :: "'v js_map \<Rightarrow> string list" where
  "Map_keys m = map fst m"

definition Map_get :: "'v js_map \<Rightarrow> string \<Rightarrow> 'v option" where
  "Map_get m k = map_of m k"

record 'w ScoringEngine =
  algorithms :: "'w ScoringAlgorithm list"

definition new_ScoringEngine :: "'w ScoringEngine" where
  "new_ScoringEngine = \<lparr>algorithms = []\<rparr>"

definition register :: "'w ScoringAlgorithm \<Rightarrow> 'w ScoringEngine \<Rightarrow> 'w ScoringEngine" where
  "register algorithm eng = eng\<lparr>algorithms := algorithms eng @ [algorithm]\<rparr>"

definition unregister :: "string \<Rightarrow> 'w ScoringEngine \<Rightarrow> 'w ScoringEngine" where
  "unregister n eng = eng\<lparr>algorithms := filter (\<lambda>a. name a \<noteq> n) (algorithms eng)\<rparr>"

text \<open>
  What \<^verbatim>\<open>evaluate\<close> leaves behind: the map it returns, the lines it wrote with
  \<^verbatim>\<open>console.error\<close> (the message and the value caught), and the plugins' outside state.
\<close>

record 'w evaluation =
  results :: "ScoringResult js_map"
  console :: "(string \<times> thrown) list"
  world :: 'w

definition failure_result :: "thrown \<Rightarrow> ScoringResult" where
  "failure_result e =
     \<lparr>ScoringResult.score = - 1, confidence = 0, signals = [],
      details = Some (''Error: '' @ (case e of ErrorObject message \<Rightarrow> message
                                               | OtherValue \<Rightarrow> ''Unknown''))\<rparr>"

definition failure_line :: "string \<Rightarrow> string" where
  "failure_line n = ''Scoring algorithm '' @ [CHR 0x22] @ n @ [CHR 0x22] @ '' failed:''"

definition evaluate_body ::
  "CaptchaSession \<Rightarrow> 'w ScoringAlgorithm \<Rightarrow> 'w evaluation \<Rightarrow> 'w evaluation" where
  "evaluate_body session algo st =
     (case ScoringAlgorithm.score algo session (world st) of
        (Inr r, w') \<Rightarrow> st\<lparr>results := Map_set (results st) (name algo) r, world := w'\<rparr>
      | (Inl e, w') \<Rightarrow>
          st\<lparr>results := Map_set (results st) (name algo) (failure_result e),
             console := console st @ [(failure_line (name algo), e)],
             world := w'\<rparr>)"

definition evaluate :: "'w ScoringEngine \<Rightarrow> CaptchaSession \<Rightarrow> 'w \<Rightarrow> 'w evaluation" where
  "evaluate eng session w =
     fold (evaluate_body session) (algorithms eng) \<lparr>results = [], console = [], world = w\<rparr>"

definition combine_body :: "ScoringResult \<Rightarrow> real \<times> real \<Rightarrow> real \<times> real" where
  "combine_body result acc =
     (case acc of (totalScore, totalWeight) \<Rightarrow>
        if ScoringResult.score result \<ge> 0
        then (totalScore + ScoringResult.score result * confidence result,
              totalWeight + confidence result)
        else (totalScore, totalWeight))"

text \<open>The number \<^verbatim>\<open>getCombinedScore\<close> returns, with what its call of \<^verbatim>\<open>evaluate\<close> left behind.\<close>

definition getCombinedScore ::
  "'w ScoringEngine \<Rightarrow> CaptchaSession \<Rightarrow> 'w \<Rightarrow> real \<times> 'w evaluation" where
  "getCombinedScore eng session w =
     (let ev = evaluate eng session w
      in if Map_size (results ev) = 0 then (- 1, ev)
         else
           (case fold combine_body (Map_values (results ev)) (0, 0) of
              (totalScore, totalWeight) \<Rightarrow>
                (if totalWeight > 0 then totalScore / totalWeight else - 1, ev)))"


section \<open>The series the specification speaks of\<close>

text \<open>
  The definitions of this section follow the words of the specification, not the code;
  the theorems below compare them with what the code computes.
\<close>

text \<open>The pairs of neighbours of a list, in order.\<close>

definition adjacent :: "'a list \<Rightarrow> ('a \<times> 'a) list" where
  "adjacent xs = zip xs (tl xs)"

text \<open>The consecutive-point segments of a stroke.\<close>

definition segments :: "CapturePoint list \<Rightarrow> (CapturePoint \<times> CapturePoint) list" where
  "segments pts = adjacent pts"

definition segment_length :: "CapturePoint \<times> CapturePoint \<Rightarrow> real" where
  "segment_length s = distance (fst s) (snd s)"

definition segment_dt :: "CapturePoint \<times> CapturePoint \<Rightarrow> real" where
  "segment_dt s = timestamp (snd s) - timestamp (fst s)"

definition segment_velocity :: "CapturePoint \<times> CapturePoint \<Rightarrow> real" where
  "segment_velocity s = segment_length s / segment_dt s"

text \<open>The segments with a positive time delta: the only ones that give a velocity.\<close>

definition timed_segments :: "CapturePoint list \<Rightarrow> (CapturePoint \<times> CapturePoint) list" where
  "timed_segments pts = filter (\<lambda>s. segment_dt s > 0) (segments pts)"

definition velocity_series :: "CapturePoint list \<Rightarrow> real list" where
  "velocity_series pts = map segment_velocity (timed_segments pts)"

text \<open>
  One acceleration for each recorded velocity but the first: the magnitude of its
  difference from the velocity recorded before it, over its own time delta.
\<close>

definition acceleration_series :: "CapturePoint list \<Rightarrow> real list" where
  "acceleration_series pts =
     map (\<lambda>(s, s'). \<bar>segment_velocity s' - segment_velocity s\<bar> / segment_dt s')
       (adjacent (timed_segments pts))"

definition arithmetic_mean :: "real list \<Rightarrow> real" where
  "arithmetic_mean xs = sum_list xs / real (length xs)"

text \<open>The bearing of every segment, and the wrapped difference of two bearings.\<close>

definition bearings :: "CapturePoint list \<Rightarrow> real list" where
  "bearings pts = map (\<lambda>s. angle (fst s) (snd s)) (segments pts)"

definition wrapped_difference :: "real \<Rightarrow> real \<Rightarrow> real" where
  "wrapped_difference a b = (if \<bar>b - a\<bar> > pi then 2 * pi - \<bar>b - a\<bar> else \<bar>b - a\<bar>)"

definition direction_change_count :: "CapturePoint list \<Rightarrow> nat" where
  "direction_change_count pts =
     length (filter (\<lambda>(a, b). wrapped_difference a b > pi / 6) (adjacent (bearings pts)))"

text \<open>
  The stroke of the specification's example: (0,0) at 0 ms, (10,0) at 10 ms, (10,10) at
  20 ms, a right-angle turn. Pressure and pointer type are not given there.
\<close>

definition right_angle_stroke :: "real \<Rightarrow> pointerType \<Rightarrow> CapturePoint list" where
  "right_angle_stroke pr k =
     [\<lparr>x = 0, y = 0, timestamp = 0, pressure = pr, pointerType = k\<rparr>,
      \<lparr>x = 10, y = 0, timestamp = 10, pressure = pr, pointerType = k\<rparr>,
      \<lparr>x = 10, y = 10, timestamp = 20, pressure = pr, pointerType = k\<rparr>]"


text \<open>
  A stroke whose middle segment has time delta 0: (0,0) at 0 ms, (3,4) at 5 ms, (6,8) at
  5 ms, (6,0) at 9 ms.
\<close>

definition stalled_stroke :: "CapturePoint list" where
  "stalled_stroke =
     [\<lparr>x = 0, y = 0, timestamp = 0, pressure = 1 / 2, pointerType = mouse\<rparr>,
      \<lparr>x = 3, y = 4, timestamp = 5, pressure = 1 / 2, pointerType = mouse\<rparr>,
      \<lparr>x = 6, y = 8, timestamp = 5, pressure = 1 / 2, pointerType = mouse\<rparr>,
      \<lparr>x = 6, y = 0, timestamp = 9, pressure = 1 / 2, pointerType = mouse\<rparr>]"


section \<open>Example runs of the capture hook\<close>

text \<open>
  A session of two strokes: the first from (0,0) at 90 ms to (10,0) at 100 ms, the
  second through (0,0), (30,0), (60,0) at 150, 160 and 170 ms.
\<close>

definition two_stroke_calls :: "capture_call list" where
  "two_stroke_calls =
     [StartSession 80 1700000000000,
      BeginStroke,
      AddPoint \<lparr>x = 0, y = 0, timestamp = 90, pressure = 1 / 2, pointerType = mouse\<rparr>,
      AddPoint \<lparr>x = 10, y = 0, timestamp = 100, pressure = 1 / 2, pointerType = mouse\<rparr>,
      EndStroke,
      BeginStroke,
      AddPoint \<lparr>x = 0, y = 0, timestamp = 150, pressure = 1 / 2, pointerType = mouse\<rparr>,
      AddPoint \<lparr>x = 30, y = 0, timestamp = 160, pressure = 1 / 2, pointerType = mouse\<rparr>,
      AddPoint \<lparr>x = 60, y = 0, timestamp = 170, pressure = 1 / 2, pointerType = mouse\<rparr>,
      EndStroke]"

definition two_stroke_capture :: capture where
  "two_stroke_capture = capture_run initial_capture two_stroke_calls"

text \<open>The same session with a third gesture of one point still open.\<close>

definition tap_capture :: capture where
  "tap_capture =
     capture_run two_stroke_capture
       [BeginStroke,
        AddPoint \<lparr>x = 5, y = 5, timestamp = 180, pressure = 1 / 2, pointerType = mouse\<rparr>]"

text \<open>A stroke, then \<open>clear\<close>, then a second gesture of two points still open.\<close>

definition redrawn_calls :: "capture_call list" where
  "redrawn_calls =
     [StartSession 80 1700000000000,
      BeginStroke,
      AddPoint \<lparr>x = 0, y = 0, timestamp = 90, pressure = 1 / 2, pointerType = mouse\<rparr>,
      AddPoint \<lparr>x = 10, y = 0, timestamp = 100, pressure = 1 / 2, pointerType = mouse\<rparr>,
      EndStroke,
      Clear,
      BeginStroke,
      AddPoint \<lparr>x = 0, y = 0, timestamp = 150, pressure = 1 / 2, pointerType = mouse\<rparr>,
      AddPoint \<lparr>x = 30, y = 0, timestamp = 160, pressure = 1 / 2, pointerType = mouse\<rparr>]"


text \<open>Two strokes, then \<open>undo\<close>, then a third stroke.\<close>

definition undone_calls :: "capture_call list" where
  "undone_calls =
     two_stroke_calls @
     [Undo,
      BeginStroke,
      AddPoint \<lparr>x = 0, y = 0, timestamp = 300, pressure = 1 / 2, pointerType = mouse\<rparr>,
      AddPoint \<lparr>x = 10, y = 0, timestamp = 310, pressure = 1 / 2, pointerType = mouse\<rparr>,
      EndStroke]"


section \<open>Invariants of the capture hook\<close>

text \<open>
  The identifiers in the stroke list increase strictly and stay below the counter, and
  every stroke kept has at least two points.
\<close>

definition ids_ok :: "capture \<Rightarrow> bool" where
  "ids_ok h \<longleftrightarrow>
     sorted_wrt (<) (map Stroke.id (strokes h)) \<and>
     (\<forall>s \<in> set (strokes h). Stroke.id s < strokeId h \<and> 2 \<le> length (points s))"

text \<open>Without \<open>undo\<close> and \<open>clear\<close> the identifiers are exactly \<open>0, \<dots>, strokeId - 1\<close>.\<close>

definition ids_dense :: "capture \<Rightarrow> bool" where
  "ids_dense h \<longleftrightarrow> map Stroke.id (strokes h) = [0..<strokeId h]"


text \<open>
  The strokes finalized since the session started, in the order \<open>endStroke\<close> appended
  them, whether they are still in the stroke list or were removed by \<open>undo\<close> or \<open>clear\<close>
  since: \<open>startSession\<close> empties the history, \<open>endStroke\<close> extends it by what it appended
  to the stroke list, and no other call changes it.
\<close>

fun finalized_step :: "capture \<times> Stroke list \<Rightarrow> capture_call \<Rightarrow> capture \<times> Stroke list" where
  "finalized_step (h, hist) c =
     (capture_step h c,
      case c of
        StartSession performance_now date_now \<Rightarrow> []
      | EndStroke \<Rightarrow> hist @ drop (length (strokes h)) (strokes (endStroke h))
      | _ \<Rightarrow> hist)"

definition finalized :: "capture \<Rightarrow> capture_call list \<Rightarrow> Stroke list" where
  "finalized h calls = snd (foldl finalized_step (h, []) calls)"

text \<open>
  The identifiers of the history are \<open>0, \<dots>, strokeId - 1\<close> and the stroke list is what
  is left of the history.
\<close>

definition history_ok :: "capture \<Rightarrow> Stroke list \<Rightarrow> bool" where
  "history_ok h hist \<longleftrightarrow>
     map Stroke.id hist = [0..<strokeId h] \<and> subseq (strokes h) hist"


section \<open>The scoring engine in the specification's words\<close>

text \<open>What an algorithm's call amounts to in the map: its result, or the synthetic one.\<close>

fun outcome :: "thrown + ScoringResult \<Rightarrow> ScoringResult" where
  "outcome (Inr r) = r"
| "outcome (Inl e) = failure_result e"

text \<open>
  The plugins' outside state after the score function of every algorithm of a list
  has been called once, in the order of the list.
\<close>

definition world_after :: "CaptchaSession \<Rightarrow> 'w ScoringAlgorithm list \<Rightarrow> 'w \<Rightarrow> 'w" where
  "world_after session algos w = fold (\<lambda>a v. snd (ScoringAlgorithm.score a session v)) algos w"

definition outcome_at ::
  "CaptchaSession \<Rightarrow> 'w ScoringAlgorithm list \<Rightarrow> 'w ScoringAlgorithm \<Rightarrow> 'w \<Rightarrow> ScoringResult" where
  "outcome_at session before a w =
     outcome (fst (ScoringAlgorithm.score a session (world_after session before w)))"

text \<open>The names of a list in the order of their first occurrence.\<close>

fun first_occurrences :: "string list \<Rightarrow> string list" where
  "first_occurrences [] = []"
| "first_occurrences (k # ks) = k # filter (\<lambda>k'. k' \<noteq> k) (first_occurrences ks)"

text \<open>
  The results that count in the combined score, their total \<open>\<Sigma> score\<^sub>i \<times> confidence\<^sub>i\<close>
  and their total weight \<open>\<Sigma> confidence\<^sub>i\<close>.
\<close>

definition eligible :: "ScoringResult js_map \<Rightarrow> ScoringResult list" where
  "eligible m = filter (\<lambda>r. ScoringResult.score r \<ge> 0) (Map_values m)"

definition weighted_total :: "ScoringResult list \<Rightarrow> real" where
  "weighted_total rs = sum_list (map (\<lambda>r. ScoringResult.score r * confidence r) rs)"

definition total_weight :: "ScoringResult list \<Rightarrow> real" where
  "total_weight rs = sum_list (map confidence rs)"

text \<open>The ranges the data contract gives a result: score in [0,1] or -1, confidence in [0,1].\<close>

definition in_contract :: "ScoringResult \<Rightarrow> bool" where
  "in_contract r \<longleftrightarrow>
     (ScoringResult.score r = - 1 \<or> (0 \<le> ScoringResult.score r \<and> ScoringResult.score r \<le> 1)) \<and>
     0 \<le> confidence r \<and> confidence r \<le> 1"


section \<open>Example engines\<close>

text \<open>
  The plugins of the examples keep a log as their outside state: a call appends
  \<open>name@version\<close>, then returns the given score and confidence, or throws.
\<close>

definition empty_session :: CaptchaSession where
  "empty_session = buildSession 200 ''id'' ''Draw a star'' 400 300 initial_capture"

definition returning :: "string \<Rightarrow> string \<Rightarrow> real \<Rightarrow> real \<Rightarrow> string list ScoringAlgorithm" where
  "returning n v sc cf =
     \<lparr>name = n, version = v,
      score = (\<lambda>session w.
        (Inr \<lparr>ScoringResult.score = sc, confidence = cf, signals = [], details = None\<rparr>,
         w @ [n @ ''@'' @ v]))\<rparr>"

definition throwing :: "string \<Rightarrow> string \<Rightarrow> thrown \<Rightarrow> string list ScoringAlgorithm" where
  "throwing n v e = \<lparr>name = n, version = v, score = (\<lambda>session w. (Inl e, w @ [n @ ''@'' @ v]))\<rparr>"

definition two_engine :: "string list ScoringEngine" where
  "two_engine =
     register (returning ''b'' ''1'' (4 / 5) (1 / 2))
       (register (returning ''a'' ''1'' (1 / 5) 1) new_ScoringEngine)"

definition same_name_engine :: "string list ScoringEngine" where
  "same_name_engine =
     register (returning ''a'' ''2'' (4 / 5) (1 / 2))
       (register (returning ''a'' ''1'' (1 / 5) 1) new_ScoringEngine)"

definition negative_engine :: "string list ScoringEngine" where
  "negative_engine = register (returning ''n'' ''1'' (1 / 2) (- 1)) new_ScoringEngine"

definition shadowed_engine :: "string list ScoringEngine" where
  "shadowed_engine =
     register (returning ''a'' ''2'' (1 / 2) 1)
       (register (throwing ''a'' ''1'' (ErrorObject ''boom'')) new_ScoringEngine)"

definition failing_engine :: "string list ScoringEngine" where
  "failing_engine =
     register (returning ''b'' ''1'' (4 / 5) (1 / 2))
       (register (throwing ''t'' ''1'' (ErrorObject ''boom''))
         (register (returning ''a'' ''1'' (1 / 5) 1) new_ScoringEngine))"

definition reregistered_engine :: "string list ScoringEngine" where
  "reregistered_engine =
     register (returning ''a'' ''2'' (4 / 5) (1 / 2))
       (register (returning ''c'' ''1'' 0 1)
         (register (returning ''a'' ''1'' (1 / 5) 1)
           (register (returning ''b'' ''1'' 1 1) new_ScoringEngine)))"


text \<open>Two algorithms whose scores and confidences binary64 combines without rounding.\<close>

definition exact_engine :: "string list ScoringEngine" where
  "exact_engine =
     register (returning ''b'' ''1'' (3 / 4) 1)
       (register (returning ''a'' ''1'' (1 / 4) 1) new_ScoringEngine)"


section \<open>The combined score in binary64\<close>

text \<open>
  \<open>getCombinedScore\<close> above computes on the reals. The code computes in IEEE 754
  binary64: every product, sum and quotient is rounded to the nearest representable
  number, ties to the even significand. \<open>binary64 v\<close> is that rounding of the real \<open>v\<close>,
  subnormal range included; \<open>None\<close> stands for a result that is not a finite number
  (overflow), where this second model says nothing. \<open>getCombinedScore_binary64\<close> is the
  same code as \<open>getCombinedScore\<close> with every operation rounded, for scores and
  confidences that are binary64 numbers themselves; it is used for the example of
  claim C1 only.
\<close>

definition round_half_even :: "real \<Rightarrow> int" where
  "round_half_even q =
     (let n = \<lfloor>q\<rfloor>; r = q - of_int n
      in if r < 1 / 2 then n else if r > 1 / 2 then n + 1 else if even n then n else n + 1)"

definition binary64 :: "real \<Rightarrow> real option" where
  "binary64 v =
     (if v = 0 then Some 0
      else
        (let e = max \<lfloor>log 2 \<bar>v\<bar>\<rfloor> (- 1022);
             ulp = 2 powr of_int (e - 52);
             r = of_int (round_half_even (v / ulp)) * ulp
         in if \<bar>r\<bar> < 2 powr 1024 then Some r else None))"

definition combine_body_binary64 ::
  "ScoringResult \<Rightarrow> (real \<times> real) option \<Rightarrow> (real \<times> real) option" where
  "combine_body_binary64 result acc =
     (case acc of
        None \<Rightarrow> None
      | Some (totalScore, totalWeight) \<Rightarrow>
          if ScoringResult.score result \<ge> 0 then
            Option.bind (binary64 (ScoringResult.score result * confidence result)) (\<lambda>product.
            Option.bind (binary64 (totalScore + product)) (\<lambda>totalScore'.
            Option.bind (binary64 (totalWeight + confidence result)) (\<lambda>totalWeight'.
              Some (totalScore', totalWeight'))))
          else Some (totalScore, totalWeight))"

definition getCombinedScore_binary64 ::
  "'w ScoringEngine \<Rightarrow> CaptchaSession \<Rightarrow> 'w \<Rightarrow> real option" where
  "getCombinedScore_binary64 eng session w =
     (let ev = evaluate eng session w
      in if Map_size (results ev) = 0 then Some (- 1)
         else
           (case fold combine_body_binary64 (Map_values (results ev)) (Some (0, 0)) of
              None \<Rightarrow> None
            | Some (totalScore, totalWeight) \<Rightarrow>
                if totalWeight > 0 then binary64 (totalScore / totalWeight) else Some (- 1)))"

text \<open>
  The example of the specification with the literals \<open>0.2\<close> and \<open>0.8\<close> as binary64 reads
  them.
\<close>

definition binary64_two_engine :: "string list ScoringEngine" where
  "binary64_two_engine =
     register (returning ''b'' ''1'' (3602879701896397 / 4503599627370496) (1 / 2))
       (register (returning ''a'' ''1'' (3602879701896397 / 18014398509481984) 1)
          new_ScoringEngine)"


section \<open>Loops and folds\<close>

lemma for_loop_fold: "for_loop i n body st = fold body [i..<n] st"
proof (induction i n body st rule: for_loop.induct)
  case (1 i n body st)
  show ?case
  proof (cases "i < n")
    case True
    then show ?thesis
      using 1 by (subst for_loop.simps) (simp add: upt_conv_Cons)
  next
    case False
    then show ?thesis by (subst for_loop.simps) simp
  qed
qed

lemma foldl_plus_sum_list: "foldl (\<lambda>a b. a + b) a xs = a + sum_list (xs :: real list)"
  by (induction xs arbitrary: a) simp_all

lemma reduce_sum_eq: "reduce_sum xs = sum_list xs"
  by (simp add: reduce_sum_def foldl_plus_sum_list)

lemma mean_or_zero_eq: "mean_or_zero xs = (if xs = [] then 0 else arithmetic_mean xs)"
  by (simp add: mean_or_zero_def arithmetic_mean_def reduce_sum_eq)

lemma max_or_zero_eq: "max_or_zero xs = (if xs = [] then 0 else Max (set xs))"
proof (cases xs)
  case Nil
  then show ?thesis by (simp add: max_or_zero_def)
next
  case (Cons v vs)
  have "Max (set (v # vs)) = fold max vs v" by (rule Max.set_eq_fold)
  then show ?thesis using Cons by (simp add: max_or_zero_def)
qed

lemma adjacent_simps [simp]:
  "adjacent [] = []" "adjacent [a] = []" "adjacent (a # b # xs) = (a, b) # adjacent (b # xs)"
  by (simp_all add: adjacent_def)

lemma adjacent_snoc:
  "adjacent (xs @ [a]) = adjacent xs @ (if xs = [] then [] else [(last xs, a)])"
  by (induction xs rule: induct_list012) simp_all

lemma length_adjacent [simp]: "length (adjacent xs) = length xs - 1"
  by (simp add: adjacent_def)

section \<open>Stroke metrics: what the loop computes\<close>

lemma metrics_body_unfold:
  "metrics_body pts i st =
     (let s = (pts ! (i - 1), pts ! i) in
      \<lparr>totalLength = totalLength st + segment_length s,
       velocities = velocities st @ (if segment_dt s > 0 then [segment_velocity s] else []),
       accelerations = accelerations st @
         (if segment_dt s > 0 \<and> velocities st \<noteq> []
          then [\<bar>segment_velocity s - last (velocities st)\<bar> / segment_dt s] else []),
       directionChanges = metrics_vars.directionChanges st +
         (case prevAngle st of None \<Rightarrow> 0
          | Some a \<Rightarrow> if wrapped_difference a (angle (fst s) (snd s)) > pi / 6 then 1 else 0),
       prevAngle = Some (angle (fst s) (snd s))\<rparr>)"
  by (cases "prevAngle st")
     (simp_all add: metrics_body_def Let_def segment_length_def segment_dt_def
       segment_velocity_def wrapped_difference_def nth_append last_conv_nth)

lemma segments_snoc:
  "xs \<noteq> [] \<Longrightarrow> segments (xs @ [q]) = segments xs @ [(last xs, q)]"
  by (simp add: segments_def adjacent_snoc)

text \<open>
  After the iterations \<open>1, \<dots>, n - 1\<close> the variables hold the series of the first \<open>n\<close>
  points.
\<close>

lemma metrics_loop_inv:
  assumes "1 \<le> n" "n \<le> length pts"
  shows "fold (metrics_body pts) [1..<n] metrics_init =
           \<lparr>totalLength = sum_list (map segment_length (segments (take n pts))),
            velocities = velocity_series (take n pts),
            accelerations = acceleration_series (take n pts),
            directionChanges = direction_change_count (take n pts),
            prevAngle = (if bearings (take n pts) = [] then None
                         else Some (last (bearings (take n pts))))\<rparr>"
  using assms
proof (induction n rule: dec_induct)
  case base
  then obtain p ps where "pts = p # ps" by (cases pts) auto
  then show ?case
    by (simp add: metrics_init_def segments_def velocity_series_def timed_segments_def
        acceleration_series_def direction_change_count_def bearings_def)
next
  case (step n)
  let ?xs = "take n pts"
  let ?s = "(pts ! (n - 1), pts ! n)"
  have n: "n < length pts" using step.prems by simp
  have ne: "?xs \<noteq> []" using step.hyps n by (cases pts) auto
  have lst: "last ?xs = pts ! (n - 1)"
    using step.hyps n ne by (simp add: last_conv_nth)
  have tk: "take (Suc n) pts = ?xs @ [pts ! n]"
    using n by (simp add: take_Suc_conv_app_nth)
  have seg: "segments (take (Suc n) pts) = segments ?xs @ [?s]"
    using segments_snoc[OF ne, of "pts ! n"] lst tk by simp
  have IH: "fold (metrics_body pts) [1..<n] metrics_init =
           \<lparr>totalLength = sum_list (map segment_length (segments ?xs)),
            velocities = velocity_series ?xs,
            accelerations = acceleration_series ?xs,
            directionChanges = direction_change_count ?xs,
            prevAngle = (if bearings ?xs = [] then None else Some (last (bearings ?xs)))\<rparr>"
    using step.IH n by simp
  have upt: "[1..<Suc n] = [1..<n] @ [n]" using step.hyps by simp
  have tm: "timed_segments (take (Suc n) pts) =
              timed_segments ?xs @ (if segment_dt ?s > 0 then [?s] else [])"
    by (simp add: timed_segments_def seg)
  have vs: "velocity_series (take (Suc n) pts) =
              velocity_series ?xs @ (if segment_dt ?s > 0 then [segment_velocity ?s] else [])"
    by (simp add: velocity_series_def tm)
  have lastv: "velocity_series ?xs \<noteq> [] \<Longrightarrow>
                 last (velocity_series ?xs) = segment_velocity (last (timed_segments ?xs))"
    by (simp add: velocity_series_def last_map)
  have acc: "acceleration_series (take (Suc n) pts) =
               acceleration_series ?xs @
               (if segment_dt ?s > 0 \<and> velocity_series ?xs \<noteq> []
                then [\<bar>segment_velocity ?s - last (velocity_series ?xs)\<bar> / segment_dt ?s]
                else [])"
    using lastv by (simp add: acceleration_series_def tm adjacent_snoc velocity_series_def)
  have br: "bearings (take (Suc n) pts) = bearings ?xs @ [angle (pts ! (n - 1)) (pts ! n)]"
    by (simp add: bearings_def seg)
  have dc: "direction_change_count (take (Suc n) pts) =
              direction_change_count ?xs +
              (if bearings ?xs = [] then 0
               else if wrapped_difference (last (bearings ?xs)) (angle (pts ! (n - 1)) (pts ! n))
                         > pi / 6 then 1 else 0)"
    by (simp add: direction_change_count_def br adjacent_snoc)
  show ?case
    unfolding upt fold_append comp_def IH
    by (simp add: metrics_body_unfold Let_def seg vs acc br dc)
qed

lemma metrics_loop_result:
  assumes "2 \<le> length pts"
  shows "for_loop 1 (length pts) (metrics_body pts) metrics_init =
           \<lparr>totalLength = sum_list (map segment_length (segments pts)),
            velocities = velocity_series pts,
            accelerations = acceleration_series pts,
            directionChanges = direction_change_count pts,
            prevAngle = Some (last (bearings pts))\<rparr>"
proof -
  have "bearings pts \<noteq> []"
    using assms by (simp add: bearings_def segments_def adjacent_def) (cases pts; cases "tl pts"; simp)
  then show ?thesis
    using metrics_loop_inv[of "length pts" pts] assms by (simp add: for_loop_fold)
qed

lemma computeStrokeMetrics_eq:
  assumes "2 \<le> length pts"
  shows "computeStrokeMetrics pts =
     \<lparr>length_px = sum_list (map segment_length (segments pts)),
      duration = timestamp (pts ! (length pts - 1)) - timestamp (pts ! 0),
      avgVelocity = mean_or_zero (velocity_series pts),
      maxVelocity = max_or_zero (velocity_series pts),
      avgAcceleration = mean_or_zero (acceleration_series pts),
      maxAcceleration = max_or_zero (acceleration_series pts),
      directionChanges = direction_change_count pts\<rparr>"
proof -
  have "\<not> length pts < 2" using assms by simp
  then show ?thesis
    unfolding computeStrokeMetrics_def metrics_loop_result[OF assms] Let_def by simp
qed

lemma atan2_range: "- pi < atan2 dy dx \<and> atan2 dy dx \<le> pi"
proof -
  have b: "- (pi / 2) < arctan (dy / dx)" "arctan (dy / dx) < pi / 2"
    by (rule arctan_lbound, rule arctan_ubound)
  have p: "0 < pi" by simp
  consider "dx > 0" | "dx < 0" "dy \<ge> 0" | "dx < 0" "dy < 0" | "dx = 0" by linarith
  then show ?thesis
  proof cases
    case 1
    then show ?thesis using b p by (simp add: atan2_def)
  next
    case 2
    then have "dy / dx \<le> 0" by (simp add: divide_nonneg_neg)
    then have "arctan (dy / dx) \<le> 0" by simp
    then show ?thesis using 2 b p by (simp add: atan2_def)
  next
    case 3
    then have "0 < dy / dx" by (simp add: divide_neg_neg)
    then have "0 < arctan (dy / dx)" by simp
    then show ?thesis using 3 b p by (simp add: atan2_def)
  next
    case 4
    then show ?thesis using p unfolding atan2_def by (auto; linarith)
  qed
qed

lemma wrapped_difference_range:
  assumes "- pi < a" "a \<le> pi" "- pi < b" "b \<le> pi"
  shows "0 \<le> wrapped_difference a b \<and> wrapped_difference a b \<le> pi"
  using assms by (simp add: wrapped_difference_def) linarith

lemma bearings_range: "b \<in> set (bearings pts) \<Longrightarrow> - pi < b \<and> b \<le> pi"
  by (auto simp: bearings_def angle_def atan2_range)

lemma set_adjacent: "(a, b) \<in> set (adjacent xs) \<Longrightarrow> a \<in> set xs \<and> b \<in> set xs"
  unfolding adjacent_def by (metis in_set_zipE list.set_sel(2) tl_Nil)

lemma right_angle_metrics:
  "StrokeMetrics.directionChanges (computeStrokeMetrics (right_angle_stroke pr k)) = 1"
  "length_px (computeStrokeMetrics (right_angle_stroke pr k)) = 20"
proof -
  have "2 \<le> length (right_angle_stroke pr k)" by (simp add: right_angle_stroke_def)
  note r = computeStrokeMetrics_eq[OF this]
  have s: "segments (right_angle_stroke pr k) =
     [(\<lparr>x = 0, y = 0, timestamp = 0, pressure = pr, pointerType = k\<rparr>,
       \<lparr>x = 10, y = 0, timestamp = 10, pressure = pr, pointerType = k\<rparr>),
      (\<lparr>x = 10, y = 0, timestamp = 10, pressure = pr, pointerType = k\<rparr>,
       \<lparr>x = 10, y = 10, timestamp = 20, pressure = pr, pointerType = k\<rparr>)]"
    by (simp add: segments_def right_angle_stroke_def)
  have b: "bearings (right_angle_stroke pr k) = [0, pi / 2]"
    by (simp add: bearings_def s angle_def atan2_def)
  show "StrokeMetrics.directionChanges (computeStrokeMetrics (right_angle_stroke pr k)) = 1"
    by (simp add: r direction_change_count_def b wrapped_difference_def)
  show "length_px (computeStrokeMetrics (right_angle_stroke pr k)) = 20"
    by (simp add: r s segment_length_def distance_def)
qed

lemma sqrt_25: "sqrt 25 = 5" and sqrt_64: "sqrt 64 = 8"
  by (simp_all add: real_sqrt_unique)

lemma stalled_stroke_series:
  "map segment_length (segments stalled_stroke) = [5, 5, 8]"
  "map segment_dt (segments stalled_stroke) = [5, 0, 4]"
  "velocity_series stalled_stroke = [1, 2]"
  "acceleration_series stalled_stroke = [1 / 4]"
  by (simp_all add: stalled_stroke_def segments_def velocity_series_def acceleration_series_def
      timed_segments_def segment_dt_def segment_velocity_def segment_length_def distance_def
      sqrt_25 sqrt_64)


section \<open>Stroke metrics: the claims\<close>

text \<open>
  Claim C3. For every list of fewer than two capture points, the empty list included,
  \<open>computeStrokeMetrics\<close> returns the record whose seven fields are all 0. The function
  is total and that branch reads no element of the list, so nothing is raised.
\<close>

theorem computeStrokeMetrics_short:
  "length pts < 2 \<Longrightarrow>
   computeStrokeMetrics pts =
     \<lparr>length_px = 0, duration = 0, avgVelocity = 0, maxVelocity = 0,
      avgAcceleration = 0, maxAcceleration = 0, directionChanges = 0\<rparr>"
  by (simp add: computeStrokeMetrics_def)

theorem computeStrokeMetrics_short_witness:
  "length ([] :: CapturePoint list) < 2 \<and>
   length [\<lparr>x = 3, y = 4, timestamp = 5, pressure = 1 / 2, pointerType = mouse\<rparr>] < 2 \<and>
   computeStrokeMetrics [] =
     \<lparr>length_px = 0, duration = 0, avgVelocity = 0, maxVelocity = 0,
      avgAcceleration = 0, maxAcceleration = 0, directionChanges = 0\<rparr> \<and>
   computeStrokeMetrics [\<lparr>x = 3, y = 4, timestamp = 5, pressure = 1 / 2, pointerType = mouse\<rparr>] =
     \<lparr>length_px = 0, duration = 0, avgVelocity = 0, maxVelocity = 0,
      avgAcceleration = 0, maxAcceleration = 0, directionChanges = 0\<rparr>"
  using computeStrokeMetrics_short [of "[]"]
    computeStrokeMetrics_short [of "[\<lparr>x = 3, y = 4, timestamp = 5, pressure = 1 / 2, pointerType = mouse\<rparr>]"]
  by simp

text \<open>
  Claim C4. For every list of at least two capture points, the velocity series the loop
  builds holds one velocity for each segment with a positive time delta and nothing for
  a segment with time delta \<open>\<le> 0\<close> (no zero is recorded for it), the acceleration series
  is built from the recorded velocities only, and the length is the sum of the
  Euclidean lengths of all segments, the excluded ones included. The average of each
  series is its arithmetic mean, the maximum its greatest element, and both are 0 when
  the series is empty.
\<close>

theorem computeStrokeMetrics_series:
  assumes "2 \<le> length pts"
  shows "length_px (computeStrokeMetrics pts) = sum_list (map segment_length (segments pts)) \<and>
    velocities (for_loop 1 (length pts) (metrics_body pts) metrics_init) = velocity_series pts \<and>
    accelerations (for_loop 1 (length pts) (metrics_body pts) metrics_init) = acceleration_series pts \<and>
    StrokeMetrics.avgVelocity (computeStrokeMetrics pts) =
      (if velocity_series pts = [] then 0 else arithmetic_mean (velocity_series pts)) \<and>
    maxVelocity (computeStrokeMetrics pts) =
      (if velocity_series pts = [] then 0 else Max (set (velocity_series pts))) \<and>
    avgAcceleration (computeStrokeMetrics pts) =
      (if acceleration_series pts = [] then 0 else arithmetic_mean (acceleration_series pts)) \<and>
    maxAcceleration (computeStrokeMetrics pts) =
      (if acceleration_series pts = [] then 0 else Max (set (acceleration_series pts)))"
  unfolding metrics_loop_result[OF assms] computeStrokeMetrics_eq[OF assms]
  by (simp add: mean_or_zero_eq max_or_zero_eq)

theorem computeStrokeMetrics_series_witness:
  "2 \<le> length stalled_stroke \<and>
   map segment_dt (segments stalled_stroke) = [5, 0, 4] \<and>
   velocity_series stalled_stroke = [1, 2] \<and>
   acceleration_series stalled_stroke = [1 / 4] \<and>
   length_px (computeStrokeMetrics stalled_stroke) = 18 \<and>
   StrokeMetrics.avgVelocity (computeStrokeMetrics stalled_stroke) = 3 / 2 \<and>
   maxVelocity (computeStrokeMetrics stalled_stroke) = 2 \<and>
   avgAcceleration (computeStrokeMetrics stalled_stroke) = 1 / 4 \<and>
   maxAcceleration (computeStrokeMetrics stalled_stroke) = 1 / 4"
proof -
  have h: "2 \<le> length stalled_stroke" by (simp add: stalled_stroke_def)
  show ?thesis
    using h computeStrokeMetrics_series [OF h]
    by (simp add: stalled_stroke_series arithmetic_mean_def)
qed

text \<open>
  Claim C5. For every list of at least two capture points, \<open>directionChanges\<close> is the
  number of pairs of consecutive segment bearings (each an \<open>atan2\<close>) whose absolute
  difference, with a difference above \<open>\<pi>\<close> replaced by \<open>2\<pi>\<close> minus it, exceeds \<open>\<pi>/6\<close>;
  that wrapped difference lies in \<open>[0, \<pi>]\<close>; only pairs are compared, so the first
  segment counts nothing and the count is at most the number of segments minus one.
  For the points (0,0) at 0, (10,0) at 10 and (10,10) at 20 the count is 1 and the
  length is 20.
\<close>

theorem direction_changes:
  "(2 \<le> length pts \<longrightarrow>
      StrokeMetrics.directionChanges (computeStrokeMetrics pts) = direction_change_count pts \<and>
      StrokeMetrics.directionChanges (computeStrokeMetrics pts) \<le> length pts - 2 \<and>
      (\<forall>(a, b) \<in> set (adjacent (bearings pts)).
         0 \<le> wrapped_difference a b \<and> wrapped_difference a b \<le> pi)) \<and>
   StrokeMetrics.directionChanges (computeStrokeMetrics (right_angle_stroke pr k)) = 1 \<and>
   length_px (computeStrokeMetrics (right_angle_stroke pr k)) = 20"
proof -
  have 1: "StrokeMetrics.directionChanges (computeStrokeMetrics pts) = direction_change_count pts"
    if "2 \<le> length pts"
    using that by (simp add: computeStrokeMetrics_eq)
  have "direction_change_count pts \<le> length (adjacent (bearings pts))"
    unfolding direction_change_count_def by (rule length_filter_le)
  also have "\<dots> = length pts - 2"
    by (simp add: bearings_def segments_def)
  finally have 2: "direction_change_count pts \<le> length pts - 2" .
  have 3: "0 \<le> wrapped_difference a b \<and> wrapped_difference a b \<le> pi"
    if "(a, b) \<in> set (adjacent (bearings pts))" for a b
    using set_adjacent[OF that] bearings_range wrapped_difference_range by blast
  show ?thesis using 1 2 3 right_angle_metrics by auto
qed

theorem direction_changes_witness:
  "2 \<le> length (right_angle_stroke (1 / 2) mouse) \<and>
   adjacent (bearings (right_angle_stroke (1 / 2) mouse)) = [(0, pi / 2)] \<and>
   wrapped_difference 0 (pi / 2) = pi / 2 \<and>
   direction_change_count (right_angle_stroke (1 / 2) mouse) = 1 \<and>
   StrokeMetrics.directionChanges (computeStrokeMetrics (right_angle_stroke (1 / 2) mouse)) = 1 \<and>
   length_px (computeStrokeMetrics (right_angle_stroke (1 / 2) mouse)) = 20"
proof -
  have h: "2 \<le> length (right_angle_stroke (1 / 2) mouse)" by (simp add: right_angle_stroke_def)
  have b: "adjacent (bearings (right_angle_stroke (1 / 2) mouse)) = [(0, pi / 2)]"
    by (simp add: bearings_def segments_def right_angle_stroke_def angle_def atan2_def)
  have w: "wrapped_difference 0 (pi / 2) = pi / 2"
    by (simp add: wrapped_difference_def)
  show ?thesis
    using h b w direction_changes [of "right_angle_stroke (1 / 2) mouse" "1 / 2" mouse]
    by simp
qed


section \<open>Session aggregator: what \<open>buildSession\<close> computes\<close>

lemma fold_snoc_map: "fold (\<lambda>i acc. acc @ [f i]) js acc = acc @ map f js"
  by (induction js arbitrary: acc) simp_all

lemma pauses_loop:
  "for_loop 1 (length ss) (pauses_body ss) [] =
     map (\<lambda>i. Stroke.startTime (ss ! i) - Stroke.endTime (ss ! (i - 1))) [1..<length ss]"
proof -
  have "pauses_body ss = (\<lambda>i acc. acc @ [Stroke.startTime (ss ! i) - Stroke.endTime (ss ! (i - 1))])"
    by (intro ext) (simp add: pauses_body_def)
  then show ?thesis by (simp add: for_loop_fold fold_snoc_map)
qed

lemma buildSession_fields:
  "CaptchaSession.strokes (buildSession now uuid pr cw ch h) = strokes h"
  "strokeCount (buildSession now uuid pr cw ch h) = length (strokes h)"
  "pausesBetweenStrokes (buildSession now uuid pr cw ch h) =
     map (\<lambda>i. Stroke.startTime (strokes h ! i) - Stroke.endTime (strokes h ! (i - 1)))
       [1..<length (strokes h)]"
  "totalPathLength (buildSession now uuid pr cw ch h) =
     sum_list (map (\<lambda>k. length_px (metrics k)) (strokes h))"
  "CaptchaSession.avgVelocity (buildSession now uuid pr cw ch h) =
     mean_or_zero (map (\<lambda>k. StrokeMetrics.avgVelocity (metrics k)) (strokes h))"
proof -
  have f: "foldl (\<lambda>sum s. sum + length_px (metrics s)) a ss
             = a + sum_list (map (\<lambda>k. length_px (metrics k)) ss)" for a and ss :: "Stroke list"
    by (induction ss arbitrary: a) simp_all
  show "CaptchaSession.strokes (buildSession now uuid pr cw ch h) = strokes h"
    "strokeCount (buildSession now uuid pr cw ch h) = length (strokes h)"
    "pausesBetweenStrokes (buildSession now uuid pr cw ch h) =
     map (\<lambda>i. Stroke.startTime (strokes h ! i) - Stroke.endTime (strokes h ! (i - 1)))
       [1..<length (strokes h)]"
    "totalPathLength (buildSession now uuid pr cw ch h) =
     sum_list (map (\<lambda>k. length_px (metrics k)) (strokes h))"
    "CaptchaSession.avgVelocity (buildSession now uuid pr cw ch h) =
     mean_or_zero (map (\<lambda>k. StrokeMetrics.avgVelocity (metrics k)) (strokes h))"
    unfolding buildSession_def Let_def pauses_loop by (simp_all add: f)
qed

lemma two_stroke_capture_strokes:
  "strokes two_stroke_capture =
     [\<lparr>id = 0,
       points = [\<lparr>x = 0, y = 0, timestamp = 90, pressure = 1 / 2, pointerType = mouse\<rparr>,
                 \<lparr>x = 10, y = 0, timestamp = 100, pressure = 1 / 2, pointerType = mouse\<rparr>],
       Stroke.startTime = 90, Stroke.endTime = 100,
       metrics = computeStrokeMetrics
                [\<lparr>x = 0, y = 0, timestamp = 90, pressure = 1 / 2, pointerType = mouse\<rparr>,
                 \<lparr>x = 10, y = 0, timestamp = 100, pressure = 1 / 2, pointerType = mouse\<rparr>]\<rparr>,
      \<lparr>id = 1,
       points = [\<lparr>x = 0, y = 0, timestamp = 150, pressure = 1 / 2, pointerType = mouse\<rparr>,
                 \<lparr>x = 30, y = 0, timestamp = 160, pressure = 1 / 2, pointerType = mouse\<rparr>,
                 \<lparr>x = 60, y = 0, timestamp = 170, pressure = 1 / 2, pointerType = mouse\<rparr>],
       Stroke.startTime = 150, Stroke.endTime = 170,
       metrics = computeStrokeMetrics
                [\<lparr>x = 0, y = 0, timestamp = 150, pressure = 1 / 2, pointerType = mouse\<rparr>,
                 \<lparr>x = 30, y = 0, timestamp = 160, pressure = 1 / 2, pointerType = mouse\<rparr>,
                 \<lparr>x = 60, y = 0, timestamp = 170, pressure = 1 / 2, pointerType = mouse\<rparr>]\<rparr>]"
  by (simp add: two_stroke_capture_def two_stroke_calls_def capture_run_def initial_capture_def
      startSession_def beginStroke_def addPoint_def endStroke_def Let_def)

lemma two_stroke_metrics:
  "computeStrokeMetrics
     [\<lparr>x = 0, y = 0, timestamp = 90, pressure = 1 / 2, pointerType = mouse\<rparr>,
      \<lparr>x = 10, y = 0, timestamp = 100, pressure = 1 / 2, pointerType = mouse\<rparr>]
   = \<lparr>length_px = 10, duration = 10, avgVelocity = 1, maxVelocity = 1,
      avgAcceleration = 0, maxAcceleration = 0, directionChanges = 0\<rparr>"
  "computeStrokeMetrics
     [\<lparr>x = 0, y = 0, timestamp = 150, pressure = 1 / 2, pointerType = mouse\<rparr>,
      \<lparr>x = 30, y = 0, timestamp = 160, pressure = 1 / 2, pointerType = mouse\<rparr>,
      \<lparr>x = 60, y = 0, timestamp = 170, pressure = 1 / 2, pointerType = mouse\<rparr>]
   = \<lparr>length_px = 60, duration = 20, avgVelocity = 3, maxVelocity = 3,
      avgAcceleration = 0, maxAcceleration = 0, directionChanges = 0\<rparr>"
  by (simp_all add: computeStrokeMetrics_eq segments_def velocity_series_def
      acceleration_series_def timed_segments_def segment_dt_def segment_velocity_def
      segment_length_def distance_def mean_or_zero_def max_or_zero_def reduce_sum_def
      direction_change_count_def bearings_def angle_def atan2_def wrapped_difference_def)

lemma example_captures:
  "currentPoints tap_capture =
     [\<lparr>x = 5, y = 5, timestamp = 180, pressure = 1 / 2, pointerType = mouse\<rparr>]"
  "strokes tap_capture = strokes two_stroke_capture"
  "strokeId tap_capture = 2"
  "strokeId two_stroke_capture = 2"
  "currentPoints (capture_run initial_capture redrawn_calls) =
     [\<lparr>x = 0, y = 0, timestamp = 150, pressure = 1 / 2, pointerType = mouse\<rparr>,
      \<lparr>x = 30, y = 0, timestamp = 160, pressure = 1 / 2, pointerType = mouse\<rparr>]"
  "strokes (capture_run initial_capture redrawn_calls) = []"
  "strokeId (capture_run initial_capture redrawn_calls) = 1"
  by (simp_all add: tap_capture_def redrawn_calls_def two_stroke_capture_def two_stroke_calls_def
      capture_run_def initial_capture_def startSession_def beginStroke_def addPoint_def
      endStroke_def clear_def Let_def)

lemma ids_ok_step: "ids_ok h \<Longrightarrow> ids_ok (capture_step h c)"
proof (cases c)
  case EndStroke
  assume "ids_ok h"
  then show ?thesis
    using EndStroke by (auto simp: ids_ok_def endStroke_def Let_def sorted_wrt_append)
next
  case Undo
  assume h: "ids_ok h"
  have "sorted_wrt (<) (take (length (strokes h) - 1) (map Stroke.id (strokes h)))"
    using h unfolding ids_ok_def by (intro sorted_wrt_take) simp
  then have "sorted_wrt (<) (map Stroke.id (butlast (strokes h)))"
    by (simp add: butlast_conv_take take_map)
  then show ?thesis
    using Undo h by (auto simp: ids_ok_def undo_def dest: in_set_butlastD)
qed (auto simp: ids_ok_def startSession_def beginStroke_def addPoint_def clear_def)

lemma ids_ok_run: "ids_ok h \<Longrightarrow> ids_ok (capture_run h calls)"
  unfolding capture_run_def by (induction calls arbitrary: h) (simp_all add: ids_ok_step)

lemma ids_dense_step:
  "ids_dense h \<Longrightarrow> c \<noteq> Undo \<Longrightarrow> c \<noteq> Clear \<Longrightarrow> ids_dense (capture_step h c)"
  by (cases c)
     (auto simp: ids_dense_def startSession_def beginStroke_def addPoint_def endStroke_def Let_def)

lemma ids_dense_run:
  "ids_dense h \<Longrightarrow> Undo \<notin> set calls \<Longrightarrow> Clear \<notin> set calls \<Longrightarrow> ids_dense (capture_run h calls)"
  unfolding capture_run_def by (induction calls arbitrary: h) (auto simp: ids_dense_step)

lemma sorted_wrt_less_distinct: "sorted_wrt (<) (ns :: nat list) \<Longrightarrow> distinct ns"
  by (induction ns) auto


lemma fst_finalized_fold:
  "fst (foldl finalized_step (h, hist) calls) = capture_run h calls"
  unfolding capture_run_def by (induction calls arbitrary: h hist) simp_all

lemma subseq_butlast_self: "subseq (butlast xs) xs"
  by (induction xs) auto

lemma history_ok_step:
  assumes "history_ok h hist"
  shows "history_ok (fst (finalized_step (h, hist) c)) (snd (finalized_step (h, hist) c))"
proof (cases c)
  case (StartSession t0 t1)
  then show ?thesis by (simp add: history_ok_def startSession_def)
next
  case BeginStroke
  then show ?thesis using assms by (simp add: history_ok_def beginStroke_def)
next
  case (AddPoint p)
  then show ?thesis using assms by (simp add: history_ok_def addPoint_def)
next
  case EndStroke
  then show ?thesis using assms by (simp add: history_ok_def endStroke_def Let_def)
next
  case Undo
  have "subseq (butlast (strokes h)) (strokes h)" by (rule subseq_butlast_self)
  then have "subseq (butlast (strokes h)) hist"
    using assms unfolding history_ok_def by (meson subseq_order.trans)
  then show ?thesis using Undo assms by (simp add: history_ok_def undo_def)
next
  case Clear
  then show ?thesis using assms by (simp add: history_ok_def clear_def)
qed

lemma history_ok_fold:
  "history_ok h hist \<Longrightarrow>
   history_ok (fst (foldl finalized_step (h, hist) calls)) (snd (foldl finalized_step (h, hist) calls))"
proof (induction calls arbitrary: h hist)
  case Nil
  then show ?case by simp
next
  case (Cons c calls)
  obtain h' hist' where s: "finalized_step (h, hist) c = (h', hist')" by (cases "finalized_step (h, hist) c")
  have "history_ok h' hist'" using history_ok_step[OF Cons.prems, of c] s by simp
  then show ?case using Cons.IH[of h' hist'] s by simp
qed

lemma history_ok_run:
  assumes "strokes h0 = []" "strokeId h0 = 0"
  shows "map Stroke.id (finalized h0 calls) = [0..<strokeId (capture_run h0 calls)]"
    and "subseq (strokes (capture_run h0 calls)) (finalized h0 calls)"
proof -
  have "history_ok h0 []" using assms by (simp add: history_ok_def)
  from history_ok_fold[OF this, of calls]
  show "map Stroke.id (finalized h0 calls) = [0..<strokeId (capture_run h0 calls)]"
    and "subseq (strokes (capture_run h0 calls)) (finalized h0 calls)"
    by (simp_all add: history_ok_def finalized_def fst_finalized_fold)
qed

lemma undone_run:
  "map Stroke.id (strokes (capture_run initial_capture undone_calls)) = [0, 2]"
  "map Stroke.startTime (strokes (capture_run initial_capture undone_calls)) = [90, 300]"
  "map Stroke.id (finalized initial_capture undone_calls) = [0, 1, 2]"
  "strokeId (capture_run initial_capture undone_calls) = 3"
  by (simp_all add: undone_calls_def two_stroke_calls_def capture_run_def finalized_def
      initial_capture_def startSession_def beginStroke_def addPoint_def endStroke_def undo_def
      Let_def)


section \<open>Session aggregator and capture hook: the claims\<close>

text \<open>
  Claim C6. For every session built from the hook's list of finalized strokes,
  \<open>strokeCount\<close> is the length of the session's stroke list, the pause list has
  \<open>max (strokeCount - 1) 0\<close> entries, and entry \<open>i\<close> is the start time of stroke \<open>i + 1\<close>
  minus the end time of stroke \<open>i\<close>. For two strokes, the first ending at 100 and the
  second starting at 150, the pause list is \<open>[50]\<close>.
\<close>

theorem pauses_between_strokes:
  "strokeCount (buildSession now uuid pr cw ch h)
     = length (CaptchaSession.strokes (buildSession now uuid pr cw ch h)) \<and>
   CaptchaSession.strokes (buildSession now uuid pr cw ch h) = strokes h \<and>
   int (length (pausesBetweenStrokes (buildSession now uuid pr cw ch h)))
     = max (int (strokeCount (buildSession now uuid pr cw ch h)) - 1) 0 \<and>
   (\<forall>i. i < length (pausesBetweenStrokes (buildSession now uuid pr cw ch h)) \<longrightarrow>
      pausesBetweenStrokes (buildSession now uuid pr cw ch h) ! i =
        Stroke.startTime (CaptchaSession.strokes (buildSession now uuid pr cw ch h) ! (i + 1)) -
        Stroke.endTime (CaptchaSession.strokes (buildSession now uuid pr cw ch h) ! i)) \<and>
   (\<forall>A B. strokes h = [A, B] \<and> Stroke.endTime A = 100 \<and> Stroke.startTime B = 150 \<longrightarrow>
      pausesBetweenStrokes (buildSession now uuid pr cw ch h) = [50])"
  by (auto simp: buildSession_fields)

theorem pauses_between_strokes_witness:
  "length (strokes two_stroke_capture) = 2 \<and>
   Stroke.endTime (strokes two_stroke_capture ! 0) = 100 \<and>
   Stroke.startTime (strokes two_stroke_capture ! 1) = 150 \<and>
   strokeCount (buildSession 200 ''id'' ''Draw a star'' 400 300 two_stroke_capture) = 2 \<and>
   pausesBetweenStrokes (buildSession 200 ''id'' ''Draw a star'' 400 300 two_stroke_capture) = [50]"
  using pauses_between_strokes [of 200 "''id''" "''Draw a star''" 400 300 two_stroke_capture]
  by (simp add: two_stroke_capture_strokes)

text \<open>
  Claim C7. For every session built by the aggregator, \<open>totalPathLength\<close> is the sum of
  the strokes' metric lengths and \<open>avgVelocity\<close> is the arithmetic mean of the strokes'
  average velocities, one term per stroke whatever its number of points (the witness
  shows a session where this mean is 2 and the mean over all segment velocities is
  7/3). From zero strokes the session is built all the same, with \<open>strokeCount = 0\<close>, no
  pause, \<open>totalPathLength = 0\<close> and \<open>avgVelocity = 0\<close>.
\<close>

theorem session_aggregates:
  "CaptchaSession.strokes (buildSession now uuid pr cw ch h) = strokes h \<and>
   totalPathLength (buildSession now uuid pr cw ch h)
     = sum_list (map (\<lambda>k. length_px (metrics k))
         (CaptchaSession.strokes (buildSession now uuid pr cw ch h))) \<and>
   CaptchaSession.avgVelocity (buildSession now uuid pr cw ch h)
     = (if CaptchaSession.strokes (buildSession now uuid pr cw ch h) = [] then 0
        else arithmetic_mean (map (\<lambda>k. StrokeMetrics.avgVelocity (metrics k))
               (CaptchaSession.strokes (buildSession now uuid pr cw ch h)))) \<and>
   (strokes h = [] \<longrightarrow>
      strokeCount (buildSession now uuid pr cw ch h) = 0 \<and>
      pausesBetweenStrokes (buildSession now uuid pr cw ch h) = [] \<and>
      totalPathLength (buildSession now uuid pr cw ch h) = 0 \<and>
      CaptchaSession.avgVelocity (buildSession now uuid pr cw ch h) = 0)"
  by (simp add: buildSession_fields mean_or_zero_eq)

theorem session_aggregates_witness:
  "strokes initial_capture = [] \<and>
   strokeCount (buildSession 200 ''id'' ''Draw a star'' 400 300 initial_capture) = 0 \<and>
   pausesBetweenStrokes (buildSession 200 ''id'' ''Draw a star'' 400 300 initial_capture) = [] \<and>
   totalPathLength (buildSession 200 ''id'' ''Draw a star'' 400 300 initial_capture) = 0 \<and>
   CaptchaSession.avgVelocity (buildSession 200 ''id'' ''Draw a star'' 400 300 initial_capture) = 0 \<and>
   map (\<lambda>k. length_px (metrics k)) (strokes two_stroke_capture) = [10, 60] \<and>
   map (\<lambda>k. StrokeMetrics.avgVelocity (metrics k)) (strokes two_stroke_capture) = [1, 3] \<and>
   totalPathLength (buildSession 200 ''id'' ''Draw a star'' 400 300 two_stroke_capture) = 70 \<and>
   CaptchaSession.avgVelocity (buildSession 200 ''id'' ''Draw a star'' 400 300 two_stroke_capture) = 2 \<and>
   arithmetic_mean (concat (map (\<lambda>k. velocity_series (points k)) (strokes two_stroke_capture)))
     = 7 / 3"
proof -
  have e: "strokes initial_capture = []" by (simp add: initial_capture_def)
  have v: "concat (map (\<lambda>k. velocity_series (points k)) (strokes two_stroke_capture)) = [1, 3, 3]"
    by (simp add: two_stroke_capture_strokes velocity_series_def timed_segments_def
        segments_def segment_dt_def segment_velocity_def segment_length_def distance_def)
  have p: "arithmetic_mean
             (concat (map (\<lambda>k. velocity_series (points k)) (strokes two_stroke_capture))) = 7 / 3"
    unfolding v by (simp add: arithmetic_mean_def)
  show ?thesis
    using e p session_aggregates [of 200 "''id''" "''Draw a star''" 400 300 initial_capture]
      session_aggregates [of 200 "''id''" "''Draw a star''" 400 300 two_stroke_capture]
    by (simp add: two_stroke_capture_strokes two_stroke_metrics arithmetic_mean_def)
qed

text \<open>
  Claim C8. Stroke identifiers come from a counter: \<open>startSession\<close> sets it to 0 and
  empties the stroke list, \<open>endStroke\<close> gives a kept stroke the counter's value and
  advances it by one, and no other call (\<open>undo\<close>, \<open>clear\<close>, \<open>beginStroke\<close>, \<open>addPoint\<close>, an
  \<open>endStroke\<close> that discards) changes it. So in every session, after any run of calls
  from its start (the hook's initial state, or the state \<open>startSession\<close> leaves), the
  strokes finalized so far, those removed since included, carry the identifiers
  \<open>0, 1, 2, \<dots>\<close> in the order they were finalized, and the stroke list is what \<open>undo\<close>
  and \<open>clear\<close> left of them: its identifiers are distinct, increase strictly and lie
  below the counter, and they are exactly \<open>0, \<dots>, n - 1\<close> as long as nothing was
  removed. A gesture finalized with fewer than two points changes neither the stroke
  list nor the counter, so every stroke in the list has at least two points;
  \<open>endStroke\<close> is total and raises nothing.
\<close>

theorem stroke_ids:
  "strokes initial_capture = [] \<and> strokeId initial_capture = 0 \<and>
   strokes (startSession t0 t1 h') = [] \<and> strokeId (startSession t0 t1 h') = 0 \<and>
   (strokes h0 = [] \<and> strokeId h0 = 0 \<longrightarrow>
      map Stroke.id (finalized h0 calls) = [0..<strokeId (capture_run h0 calls)] \<and>
      subseq (strokes (capture_run h0 calls)) (finalized h0 calls) \<and>
      distinct (map Stroke.id (strokes (capture_run h0 calls))) \<and>
      sorted_wrt (<) (map Stroke.id (strokes (capture_run h0 calls))) \<and>
      (\<forall>s \<in> set (strokes (capture_run h0 calls)).
         Stroke.id s < strokeId (capture_run h0 calls) \<and> 2 \<le> length (points s)) \<and>
      (Undo \<notin> set calls \<and> Clear \<notin> set calls \<longrightarrow>
         map Stroke.id (strokes (capture_run h0 calls))
           = [0..<length (strokes (capture_run h0 calls))])) \<and>
   strokeId (undo h) = strokeId h \<and> strokes (undo h) = butlast (strokes h) \<and>
   strokeId (clear h) = strokeId h \<and> strokes (clear h) = [] \<and>
   strokeId (beginStroke h) = strokeId h \<and> strokes (beginStroke h) = strokes h \<and>
   strokeId (addPoint p h) = strokeId h \<and> strokes (addPoint p h) = strokes h \<and>
   (length (currentPoints h) < 2 \<longrightarrow>
      strokes (endStroke h) = strokes h \<and> strokeId (endStroke h) = strokeId h) \<and>
   (2 \<le> length (currentPoints h) \<longrightarrow>
      strokes (endStroke h) =
        strokes h @ [\<lparr>id = strokeId h, points = currentPoints h,
                      Stroke.startTime = timestamp (currentPoints h ! 0),
                      Stroke.endTime = timestamp (currentPoints h ! (length (currentPoints h) - 1)),
                      metrics = computeStrokeMetrics (currentPoints h)\<rparr>] \<and>
      strokeId (endStroke h) = strokeId h + 1)"
proof -
  let ?h = "capture_run h0 calls"
  have ok: "ids_ok ?h" if "strokes h0 = []"
    using that by (intro ids_ok_run) (simp add: ids_ok_def)
  have d: "map Stroke.id (strokes ?h) = [0..<length (strokes ?h)]"
    if "strokes h0 = []" "strokeId h0 = 0" "Undo \<notin> set calls" "Clear \<notin> set calls"
  proof -
    have "ids_dense h0" using that by (simp add: ids_dense_def)
    then have e: "map Stroke.id (strokes ?h) = [0..<strokeId ?h]"
      using that ids_dense_run unfolding ids_dense_def by blast
    then have "length (strokes ?h) = strokeId ?h"
      by (metis length_map length_upt minus_nat.diff_0)
    then show ?thesis using e by simp
  qed
  have run: "map Stroke.id (finalized h0 calls) = [0..<strokeId ?h] \<and>
      subseq (strokes ?h) (finalized h0 calls) \<and>
      distinct (map Stroke.id (strokes ?h)) \<and>
      sorted_wrt (<) (map Stroke.id (strokes ?h)) \<and>
      (\<forall>s \<in> set (strokes ?h). Stroke.id s < strokeId ?h \<and> 2 \<le> length (points s)) \<and>
      (Undo \<notin> set calls \<and> Clear \<notin> set calls \<longrightarrow>
         map Stroke.id (strokes ?h) = [0..<length (strokes ?h)])"
    if "strokes h0 = []" "strokeId h0 = 0"
    using ok[OF that(1)] d[OF that] sorted_wrt_less_distinct[of "map Stroke.id (strokes ?h)"]
      history_ok_run[OF that, of calls]
    by (simp add: ids_ok_def)
  have frame: "strokeId (undo h) = strokeId h \<and> strokes (undo h) = butlast (strokes h) \<and>
   strokeId (clear h) = strokeId h \<and> strokes (clear h) = [] \<and>
   strokeId (beginStroke h) = strokeId h \<and> strokes (beginStroke h) = strokes h \<and>
   strokeId (addPoint p h) = strokeId h \<and> strokes (addPoint p h) = strokes h"
    by (simp add: undo_def clear_def beginStroke_def addPoint_def)
  have fin: "(length (currentPoints h) < 2 \<longrightarrow>
      strokes (endStroke h) = strokes h \<and> strokeId (endStroke h) = strokeId h) \<and>
   (2 \<le> length (currentPoints h) \<longrightarrow>
      strokes (endStroke h) =
        strokes h @ [\<lparr>id = strokeId h, points = currentPoints h,
                      Stroke.startTime = timestamp (currentPoints h ! 0),
                      Stroke.endTime = timestamp (currentPoints h ! (length (currentPoints h) - 1)),
                      metrics = computeStrokeMetrics (currentPoints h)\<rparr>] \<and>
      strokeId (endStroke h) = strokeId h + 1)"
    by (simp add: endStroke_def Let_def)
  have st: "strokes initial_capture = [] \<and> strokeId initial_capture = 0 \<and>
     strokes (startSession t0 t1 h') = [] \<and> strokeId (startSession t0 t1 h') = 0"
    by (simp add: initial_capture_def startSession_def)
  show ?thesis using run frame fin st by blast
qed

theorem stroke_ids_witness:
  "strokes initial_capture = [] \<and> strokeId initial_capture = 0 \<and>
   Undo \<notin> set two_stroke_calls \<and> Clear \<notin> set two_stroke_calls \<and>
   map Stroke.id (strokes (capture_run initial_capture two_stroke_calls)) = [0, 1] \<and>
   map (\<lambda>s. length (points s)) (strokes (capture_run initial_capture two_stroke_calls)) = [2, 3] \<and>
   strokeId (capture_run initial_capture two_stroke_calls) = 2 \<and>
   map Stroke.id (strokes (capture_run initial_capture undone_calls)) = [0, 2] \<and>
   map Stroke.startTime (strokes (capture_run initial_capture undone_calls)) = [90, 300] \<and>
   map Stroke.id (finalized initial_capture undone_calls) = [0, 1, 2] \<and>
   strokeId (capture_run initial_capture undone_calls) = 3 \<and>
   length (currentPoints tap_capture) < 2 \<and>
   strokes (endStroke tap_capture) = strokes tap_capture \<and>
   strokeId (endStroke tap_capture) = strokeId tap_capture \<and>
   2 \<le> length (currentPoints (capture_run initial_capture redrawn_calls)) \<and>
   map Stroke.id (strokes (endStroke (capture_run initial_capture redrawn_calls))) = [1] \<and>
   strokeId (endStroke (capture_run initial_capture redrawn_calls)) = 2"
proof -
  have i: "strokes initial_capture = [] \<and> strokeId initial_capture = 0"
    by (simp add: initial_capture_def)
  have c: "Undo \<notin> set two_stroke_calls \<and> Clear \<notin> set two_stroke_calls"
    by (simp add: two_stroke_calls_def)
  have n: "length (strokes (capture_run initial_capture two_stroke_calls)) = 2"
    "map (\<lambda>s. length (points s)) (strokes (capture_run initial_capture two_stroke_calls)) = [2, 3]"
    "strokeId (capture_run initial_capture two_stroke_calls) = 2"
    using two_stroke_capture_strokes example_captures(4)
    by (simp_all add: two_stroke_capture_def)
  have u: "[0..<2] = [0, Suc 0]" by (simp add: upt_conv_Cons)
  have v: "map Stroke.id (strokes (capture_run initial_capture undone_calls)) = [0, 2]"
    "map Stroke.startTime (strokes (capture_run initial_capture undone_calls)) = [90, 300]"
    "strokeId (capture_run initial_capture undone_calls) = 3"
    by (rule undone_run)+
  have u3: "[0..<3] = [0, Suc 0, 2]" by (simp add: upt_conv_Cons)
  have t: "length (currentPoints tap_capture) < 2"
    "2 \<le> length (currentPoints (capture_run initial_capture redrawn_calls))"
    by (simp_all add: example_captures)
  show ?thesis
    using i c n t v
      stroke_ids [of 0 0 initial_capture initial_capture two_stroke_calls tap_capture
                     "\<lparr>x = 0, y = 0, timestamp = 0, pressure = 0, pointerType = mouse\<rparr>"]
      stroke_ids [of 0 0 initial_capture initial_capture undone_calls
                     "capture_run initial_capture redrawn_calls"
                     "\<lparr>x = 0, y = 0, timestamp = 0, pressure = 0, pointerType = mouse\<rparr>"]
    by (simp add: example_captures u u3)
qed


section \<open>Scoring engine: what \<open>evaluate\<close> and \<open>getCombinedScore\<close> compute\<close>

lemma Map_set_update: "Map_set m k v = AList.update k v m"
  by (induction m) auto

lemma Map_keys_set:
  "Map_keys (Map_set m k v) = (if k \<in> set (Map_keys m) then Map_keys m else Map_keys m @ [k])"
  by (simp add: Map_keys_def Map_set_update update_keys)

lemma Map_get_set: "Map_get (Map_set m k v) k' = (if k' = k then Some v else Map_get m k')"
  by (simp add: Map_get_def Map_set_update update_conv')

lemma Map_set_entries: "p \<in> set (Map_set m k v) \<Longrightarrow> p = (k, v) \<or> p \<in> set m"
  by (induction m) (auto split: if_splits)

lemma Map_values_set:
  "r \<in> set (Map_values (Map_set m k v)) \<Longrightarrow> r = v \<or> r \<in> set (Map_values m)"
  unfolding Map_values_def using Map_set_entries[of _ m k v] by force

lemma evaluate_body_fields:
  "results (evaluate_body s a st) =
     Map_set (results st) (name a) (outcome (fst (ScoringAlgorithm.score a s (world st))))"
  "world (evaluate_body s a st) = snd (ScoringAlgorithm.score a s (world st))"
  "console (evaluate_body s a st) =
     console st @ (case fst (ScoringAlgorithm.score a s (world st)) of
                     Inl e \<Rightarrow> [(failure_line (name a), e)] | Inr r \<Rightarrow> [])"
  by (simp_all add: evaluate_body_def split: prod.splits sum.splits)

lemma evaluate_algorithms:
  "evaluate eng s w = evaluate \<lparr>algorithms = algorithms eng\<rparr> s w"
  by (simp add: evaluate_def)

lemma world_after_snoc:
  "world_after s (algos @ [a]) w = snd (ScoringAlgorithm.score a s (world_after s algos w))"
  by (simp add: world_after_def)

lemma evaluate_world_list:
  "world (evaluate \<lparr>algorithms = algos\<rparr> s w) = world_after s algos w"
proof (induction algos rule: rev_induct)
  case Nil
  then show ?case by (simp add: evaluate_def world_after_def)
next
  case (snoc a algos)
  have "evaluate \<lparr>algorithms = algos @ [a]\<rparr> s w =
          evaluate_body s a (evaluate \<lparr>algorithms = algos\<rparr> s w)"
    by (simp add: evaluate_def)
  then show ?case using snoc by (simp add: evaluate_body_fields world_after_snoc)
qed

lemma first_occurrences_set [simp]: "set (first_occurrences ks) = set ks"
  by (induction ks) auto

lemma first_occurrences_distinct [simp]: "distinct (first_occurrences ks)"
  by (induction ks) auto

lemma first_occurrences_snoc:
  "first_occurrences (ks @ [k]) = first_occurrences ks @ (if k \<in> set ks then [] else [k])"
  by (induction ks) auto

lemma first_occurrences_append:
  "first_occurrences (ks @ ks') =
     first_occurrences ks @ filter (\<lambda>k. k \<notin> set ks) (first_occurrences ks')"
proof (induction ks' rule: rev_induct)
  case Nil
  then show ?case by simp
next
  case (snoc k ks')
  have "first_occurrences (ks @ ks' @ [k]) = first_occurrences ((ks @ ks') @ [k])" by simp
  also have "\<dots> = first_occurrences (ks @ ks') @ (if k \<in> set (ks @ ks') then [] else [k])"
    by (rule first_occurrences_snoc)
  finally show ?case using snoc by (auto simp: first_occurrences_snoc)
qed

lemma evaluate_keys_list:
  "Map_keys (results (evaluate \<lparr>algorithms = algos\<rparr> s w)) = first_occurrences (map name algos)"
proof (induction algos rule: rev_induct)
  case Nil
  then show ?case by (simp add: evaluate_def Map_keys_def)
next
  case (snoc a algos)
  have "evaluate \<lparr>algorithms = algos @ [a]\<rparr> s w =
          evaluate_body s a (evaluate \<lparr>algorithms = algos\<rparr> s w)"
    by (simp add: evaluate_def)
  then show ?case
    using snoc by (simp add: evaluate_body_fields Map_keys_set first_occurrences_snoc)
qed

lemma evaluate_get_list:
  assumes "\<forall>c \<in> set post. name c \<noteq> name a"
  shows "Map_get (results (evaluate \<lparr>algorithms = pre @ [a] @ post\<rparr> s w)) (name a) =
           Some (outcome_at s pre a w)"
  using assms
proof (induction post rule: rev_induct)
  case Nil
  have "evaluate \<lparr>algorithms = pre @ [a]\<rparr> s w =
          evaluate_body s a (evaluate \<lparr>algorithms = pre\<rparr> s w)"
    by (simp add: evaluate_def)
  then show ?case
    by (simp add: evaluate_body_fields Map_get_set evaluate_world_list outcome_at_def)
next
  case (snoc c post)
  have "evaluate \<lparr>algorithms = pre @ [a] @ post @ [c]\<rparr> s w =
          evaluate_body s c (evaluate \<lparr>algorithms = pre @ [a] @ post\<rparr> s w)"
    by (simp add: evaluate_def)
  moreover have "name a \<noteq> name c" using snoc.prems by auto
  ultimately show ?case using snoc by (simp add: evaluate_body_fields Map_get_set)
qed

lemma evaluate_console_list:
  "console (evaluate \<lparr>algorithms = algos @ [a]\<rparr> s w) =
     console (evaluate \<lparr>algorithms = algos\<rparr> s w) @
       (case fst (ScoringAlgorithm.score a s (world_after s algos w)) of
          Inl e \<Rightarrow> [(failure_line (name a), e)] | Inr r \<Rightarrow> [])"
proof -
  have "evaluate \<lparr>algorithms = algos @ [a]\<rparr> s w =
          evaluate_body s a (evaluate \<lparr>algorithms = algos\<rparr> s w)"
    by (simp add: evaluate_def)
  then show ?thesis by (simp add: evaluate_body_fields evaluate_world_list)
qed

lemma combine_fold:
  "fold combine_body rs (S, W) =
     (S + weighted_total (filter (\<lambda>r. ScoringResult.score r \<ge> 0) rs),
      W + total_weight (filter (\<lambda>r. ScoringResult.score r \<ge> 0) rs))"
  by (induction rs arbitrary: S W) (simp_all add: combine_body_def weighted_total_def total_weight_def)

lemma getCombinedScore_eq:
  "getCombinedScore eng s w =
     (if algorithms eng = [] then - 1
      else if total_weight (eligible (results (evaluate eng s w))) > 0
           then weighted_total (eligible (results (evaluate eng s w)))
                  / total_weight (eligible (results (evaluate eng s w)))
           else - 1,
      evaluate eng s w)"
proof -
  have "Map_keys (results (evaluate eng s w)) = first_occurrences (map name (algorithms eng))"
    using evaluate_keys_list[of "algorithms eng" s w] evaluate_algorithms[of eng s w] by simp
  then have "length (results (evaluate eng s w)) = length (first_occurrences (map name (algorithms eng)))"
    unfolding Map_keys_def by (metis length_map)
  then have z: "Map_size (results (evaluate eng s w)) = 0 \<longleftrightarrow> algorithms eng = []"
    unfolding Map_size_def by (cases "algorithms eng") simp_all
  show ?thesis
    unfolding getCombinedScore_def Let_def z
    by (simp add: combine_fold eligible_def)
qed

lemma evaluate_list: "evaluate eng s w = evaluate \<lparr>algorithms = algorithms eng\<rparr> s w"
  by (rule evaluate_algorithms)

lemma evaluate_keys:
  "Map_keys (results (evaluate eng s w)) = first_occurrences (map name (algorithms eng))"
  using evaluate_keys_list[of "algorithms eng" s w] evaluate_list[of eng s w] by simp

lemma evaluate_world: "world (evaluate eng s w) = world_after s (algorithms eng) w"
  using evaluate_world_list[of "algorithms eng" s w] evaluate_list[of eng s w] by simp

lemma evaluate_get:
  assumes "algorithms eng = pre @ [a] @ post" "\<forall>c \<in> set post. name c \<noteq> name a"
  shows "Map_get (results (evaluate eng s w)) (name a) = Some (outcome_at s pre a w)"
  using evaluate_get_list[OF assms(2), of pre s w] evaluate_list[of eng s w] assms(1) by simp

lemma example_engines:
  "algorithms two_engine = [returning ''a'' ''1'' (1 / 5) 1, returning ''b'' ''1'' (4 / 5) (1 / 2)]"
  "algorithms same_name_engine =
     [returning ''a'' ''1'' (1 / 5) 1, returning ''a'' ''2'' (4 / 5) (1 / 2)]"
  "algorithms negative_engine = [returning ''n'' ''1'' (1 / 2) (- 1)]"
  "algorithms shadowed_engine =
     [throwing ''a'' ''1'' (ErrorObject ''boom''), returning ''a'' ''2'' (1 / 2) 1]"
  "algorithms failing_engine =
     [returning ''a'' ''1'' (1 / 5) 1, throwing ''t'' ''1'' (ErrorObject ''boom''),
      returning ''b'' ''1'' (4 / 5) (1 / 2)]"
  "algorithms reregistered_engine =
     [returning ''b'' ''1'' 1 1, returning ''a'' ''1'' (1 / 5) 1, returning ''c'' ''1'' 0 1,
      returning ''a'' ''2'' (4 / 5) (1 / 2)]"
  by (simp_all add: two_engine_def same_name_engine_def negative_engine_def shadowed_engine_def
      failing_engine_def reregistered_engine_def register_def new_ScoringEngine_def)

lemma example_algorithms:
  "name (returning n v sc cf) = n"
  "ScoringAlgorithm.score (returning n v sc cf) s w =
     (Inr \<lparr>ScoringResult.score = sc, confidence = cf, signals = [], details = None\<rparr>,
      w @ [n @ ''@'' @ v])"
  "name (throwing n v e) = n"
  "ScoringAlgorithm.score (throwing n v e) s w = (Inl e, w @ [n @ ''@'' @ v])"
  by (simp_all add: returning_def throwing_def)

lemma example_evaluations:
  "results (evaluate two_engine s []) =
     [(''a'', \<lparr>ScoringResult.score = 1 / 5, confidence = 1, signals = [], details = None\<rparr>),
      (''b'', \<lparr>ScoringResult.score = 4 / 5, confidence = 1 / 2, signals = [], details = None\<rparr>)]"
  "results (evaluate same_name_engine s []) =
     [(''a'', \<lparr>ScoringResult.score = 4 / 5, confidence = 1 / 2, signals = [], details = None\<rparr>)]"
  "results (evaluate negative_engine s []) =
     [(''n'', \<lparr>ScoringResult.score = 1 / 2, confidence = - 1, signals = [], details = None\<rparr>)]"
  "results (evaluate shadowed_engine s []) =
     [(''a'', \<lparr>ScoringResult.score = 1 / 2, confidence = 1, signals = [], details = None\<rparr>)]"
  "results (evaluate failing_engine s []) =
     [(''a'', \<lparr>ScoringResult.score = 1 / 5, confidence = 1, signals = [], details = None\<rparr>),
      (''t'', \<lparr>ScoringResult.score = - 1, confidence = 0, signals = [],
              details = Some ''Error: boom''\<rparr>),
      (''b'', \<lparr>ScoringResult.score = 4 / 5, confidence = 1 / 2, signals = [], details = None\<rparr>)]"
  "results (evaluate reregistered_engine s []) =
     [(''b'', \<lparr>ScoringResult.score = 1, confidence = 1, signals = [], details = None\<rparr>),
      (''a'', \<lparr>ScoringResult.score = 4 / 5, confidence = 1 / 2, signals = [], details = None\<rparr>),
      (''c'', \<lparr>ScoringResult.score = 0, confidence = 1, signals = [], details = None\<rparr>)]"
  by (simp_all add: evaluate_def example_engines evaluate_body_def example_algorithms
      failure_result_def)

lemma console_grows: "set (console st) \<subseteq> set (console (fold (evaluate_body s) algos st))"
proof (induction algos arbitrary: st)
  case Nil
  then show ?case by simp
next
  case (Cons a algos)
  have "set (console st) \<subseteq> set (console (evaluate_body s a st))"
    by (simp add: evaluate_body_fields)
  also have "\<dots> \<subseteq> set (console (fold (evaluate_body s) algos (evaluate_body s a st)))"
    by (rule Cons.IH)
  finally show ?case by simp
qed

lemma evaluate_console:
  assumes "algorithms eng = pre @ [a] @ post"
    and "fst (ScoringAlgorithm.score a s (world_after s pre w)) = Inl e"
  shows "(failure_line (name a), e) \<in> set (console (evaluate eng s w))"
proof -
  let ?st = "evaluate \<lparr>algorithms = pre @ [a]\<rparr> s w"
  have "(failure_line (name a), e) \<in> set (console ?st)"
    using assms(2) by (simp add: evaluate_console_list)
  moreover have "evaluate eng s w = fold (evaluate_body s) post ?st"
    using assms(1) by (simp add: evaluate_def)
  ultimately show ?thesis using console_grows[of ?st s post] by auto
qed

lemma in_contract_failure: "in_contract (failure_result e)"
  by (simp add: in_contract_def failure_result_def)

lemma evaluate_values_in_contract:
  assumes "\<forall>a \<in> set algos. \<forall>v r v'.
             ScoringAlgorithm.score a s v = (Inr r, v') \<longrightarrow> in_contract r"
  shows "\<forall>r \<in> set (Map_values (results (evaluate \<lparr>algorithms = algos\<rparr> s w))). in_contract r"
  using assms
proof (induction algos rule: rev_induct)
  case Nil
  then show ?case by (simp add: evaluate_def Map_values_def)
next
  case (snoc a algos)
  let ?st = "evaluate \<lparr>algorithms = algos\<rparr> s w"
  have e: "evaluate \<lparr>algorithms = algos @ [a]\<rparr> s w = evaluate_body s a ?st"
    by (simp add: evaluate_def)
  have IH: "\<forall>r \<in> set (Map_values (results ?st)). in_contract r"
    using snoc by simp
  have "in_contract (outcome (fst (ScoringAlgorithm.score a s (world ?st))))"
  proof (cases "ScoringAlgorithm.score a s (world ?st)")
    case (Pair res v')
    show ?thesis
    proof (cases res)
      case (Inl e)
      then show ?thesis using Pair by (simp add: in_contract_failure)
    next
      case (Inr r)
      then have "in_contract r" using Pair snoc.prems by auto
      then show ?thesis using Pair Inr by simp
    qed
  qed
  then have new: "in_contract (outcome (fst (ScoringAlgorithm.score a s (world ?st))))" .
  show ?case
  proof
    fix r
    assume "r \<in> set (Map_values (results (evaluate \<lparr>algorithms = algos @ [a]\<rparr> s w)))"
    then have "r \<in> set (Map_values (Map_set (results ?st) (name a)
                 (outcome (fst (ScoringAlgorithm.score a s (world ?st))))))"
      by (simp only: e evaluate_body_fields)
    then have "r = outcome (fst (ScoringAlgorithm.score a s (world ?st)))
                 \<or> r \<in> set (Map_values (results ?st))"
      by (rule Map_values_set)
    then show "in_contract r" using new IH by blast
  qed
qed

lemma in_contract_totals:
  assumes "\<forall>r \<in> set rs. in_contract r \<and> ScoringResult.score r \<ge> 0"
  shows "0 \<le> weighted_total rs \<and> weighted_total rs \<le> total_weight rs"
  using assms
proof (induction rs)
  case Nil
  then show ?case by (simp add: weighted_total_def total_weight_def)
next
  case (Cons r rs)
  have r: "0 \<le> ScoringResult.score r" "ScoringResult.score r \<le> 1" "0 \<le> confidence r"
    using Cons.prems by (auto simp: in_contract_def)
  have "0 \<le> ScoringResult.score r * confidence r" using r by simp
  moreover have "ScoringResult.score r * confidence r \<le> confidence r"
    using r by (simp add: mult_left_le_one_le)
  ultimately show ?case
    using Cons by (simp add: weighted_total_def total_weight_def)
qed

lemma distinct_count_one:
  "distinct ks \<Longrightarrow> k \<in> set ks \<Longrightarrow> length (filter (\<lambda>k'. k' = k) ks) = 1"
  by (induction ks) (auto simp: filter_empty_conv)


lemma binary64_normal:
  assumes "2 powr of_int e \<le> \<bar>v\<bar>" "\<bar>v\<bar> < 2 powr of_int (e + 1)" "- 1022 \<le> e"
    and "round_half_even (v / 2 powr of_int (e - 52)) = n"
    and "\<bar>real_of_int n * 2 powr of_int (e - 52)\<bar> < 2 powr 1024"
  shows "binary64 v = Some (of_int n * 2 powr of_int (e - 52))"
proof -
  have pos: "0 < \<bar>v\<bar>" using assms(1) by (smt (verit) powr_gt_zero)
  then have "\<lfloor>log 2 \<bar>v\<bar>\<rfloor> = e"
    using assms(1,2) by (simp add: floor_log_eq_powr_iff)
  then have "max \<lfloor>log 2 \<bar>v\<bar>\<rfloor> (- 1022) = e" using assms(3) by simp
  moreover have "v \<noteq> 0" using pos by auto
  ultimately show ?thesis
    using assms(4,5) by (simp add: binary64_def Let_def)
qed

lemma binary64_values:
  "binary64 (1 / 5) = Some (3602879701896397 / 18014398509481984)"
  "binary64 (4 / 5) = Some (3602879701896397 / 4503599627370496)"
  "binary64 (3602879701896397 / 18014398509481984) = Some (3602879701896397 / 18014398509481984)"
  "binary64 (3602879701896397 / 9007199254740992) = Some (3602879701896397 / 9007199254740992)"
  "binary64 (10808639105689191 / 18014398509481984) = Some (1351079888211149 / 2251799813685248)"
  "binary64 (1351079888211149 / 3377699720527872) = Some (7205759403792795 / 18014398509481984)"
  "binary64 (1 / 4) = Some (1 / 4)"
  "binary64 (1 / 2) = Some (1 / 2)"
  "binary64 (3 / 4) = Some (3 / 4)"
  "binary64 1 = Some 1"
  "binary64 (3 / 2) = Some (3 / 2)"
  "binary64 2 = Some 2"
  using binary64_normal[of "-3" "1 / 5" 7205759403792794]
    binary64_normal[of "-1" "4 / 5" 7205759403792794]
    binary64_normal[of "-3" "3602879701896397 / 18014398509481984" 7205759403792794]
    binary64_normal[of "-2" "3602879701896397 / 9007199254740992" 7205759403792794]
    binary64_normal[of "-1" "10808639105689191 / 18014398509481984" 5404319552844596]
    binary64_normal[of "-2" "1351079888211149 / 3377699720527872" 7205759403792795]
    binary64_normal[of "-2" "1 / 4" 4503599627370496]
    binary64_normal[of "-1" "1 / 2" 4503599627370496]
    binary64_normal[of "-1" "3 / 4" 6755399441055744]
    binary64_normal[of "0" "1" 4503599627370496]
    binary64_normal[of "0" "3 / 2" 6755399441055744]
    binary64_normal[of "1" "2" 4503599627370496]
  by (simp_all add: powr_minus round_half_even_def Let_def)

lemma binary64_engines:
  "results (evaluate binary64_two_engine s []) =
     [(''a'', \<lparr>ScoringResult.score = 3602879701896397 / 18014398509481984, confidence = 1,
              signals = [], details = None\<rparr>),
      (''b'', \<lparr>ScoringResult.score = 3602879701896397 / 4503599627370496, confidence = 1 / 2,
              signals = [], details = None\<rparr>)]"
  "results (evaluate exact_engine s []) =
     [(''a'', \<lparr>ScoringResult.score = 1 / 4, confidence = 1, signals = [], details = None\<rparr>),
      (''b'', \<lparr>ScoringResult.score = 3 / 4, confidence = 1, signals = [], details = None\<rparr>)]"
  by (simp_all add: evaluate_def binary64_two_engine_def exact_engine_def register_def
      new_ScoringEngine_def evaluate_body_def example_algorithms)


section \<open>Scoring engine: the claims\<close>




text \<open>
  Claim C2, as amended. For every session and every list of registered algorithms, if
  the score function of one of them throws, \<open>evaluate\<close> still calls every registered
  algorithm once, in registration order, and returns a map with exactly one entry per
  registered name; the failure is written to the console; the entry under a name
  holds the outcome of the last algorithm registered under it, so the entry of the
  throwing algorithm is the synthetic result (score \<open>-1\<close>, confidence 0, no signals, a
  details string \<open>Error: \<dots>\<close> naming the failure) unless an algorithm registered later
  under the same name replaced it. What is thrown is a value of the model and
  \<open>evaluate\<close> is total: nothing reaches the caller.
\<close>

theorem evaluate_isolates_failures:
  assumes "algorithms eng = pre @ [a] @ post"
    and "fst (ScoringAlgorithm.score a s (world_after s pre w)) = Inl e"
  shows "distinct (Map_keys (results (evaluate eng s w))) \<and>
    set (Map_keys (results (evaluate eng s w))) = name ` set (algorithms eng) \<and>
    world (evaluate eng s w) = world_after s (algorithms eng) w \<and>
    (failure_line (name a), e) \<in> set (console (evaluate eng s w)) \<and>
    ((\<forall>c \<in> set post. name c \<noteq> name a) \<longrightarrow>
       Map_get (results (evaluate eng s w)) (name a) =
         Some \<lparr>ScoringResult.score = - 1, confidence = 0, signals = [],
               details = Some (''Error: '' @ (case e of ErrorObject message \<Rightarrow> message
                                                     | OtherValue \<Rightarrow> ''Unknown''))\<rparr>) \<and>
    (\<forall>ahead c behind.
       algorithms eng = ahead @ [c] @ behind \<and> (\<forall>d \<in> set behind. name d \<noteq> name c) \<longrightarrow>
       Map_get (results (evaluate eng s w)) (name c) =
         Some (outcome (fst (ScoringAlgorithm.score c s (world_after s ahead w)))))"
proof -
  have 1: "Map_get (results (evaluate eng s w)) (name a) =
         Some \<lparr>ScoringResult.score = - 1, confidence = 0, signals = [],
               details = Some (''Error: '' @ (case e of ErrorObject message \<Rightarrow> message
                                                     | OtherValue \<Rightarrow> ''Unknown''))\<rparr>"
    if "\<forall>c \<in> set post. name c \<noteq> name a"
    using evaluate_get[OF assms(1) that, of s w] assms(2)
    by (simp add: outcome_at_def failure_result_def)
  have 2: "Map_get (results (evaluate eng s w)) (name c) =
         Some (outcome (fst (ScoringAlgorithm.score c s (world_after s ahead w))))"
    if "algorithms eng = ahead @ [c] @ behind" "\<forall>d \<in> set behind. name d \<noteq> name c" for ahead c behind
    using evaluate_get[OF that, of s w] by (simp add: outcome_at_def)
  show ?thesis
    using 1 2 evaluate_console[OF assms]
    by (simp add: evaluate_keys evaluate_world)
qed

theorem evaluate_isolates_failures_witness:
  "algorithms failing_engine =
     [returning ''a'' ''1'' (1 / 5) 1] @ [throwing ''t'' ''1'' (ErrorObject ''boom'')] @
     [returning ''b'' ''1'' (4 / 5) (1 / 2)] \<and>
   fst (ScoringAlgorithm.score (throwing ''t'' ''1'' (ErrorObject ''boom'')) empty_session
         (world_after empty_session [returning ''a'' ''1'' (1 / 5) 1] []))
     = Inl (ErrorObject ''boom'') \<and>
   name (returning ''b'' ''1'' (4 / 5) (1 / 2)) \<noteq> name (throwing ''t'' ''1'' (ErrorObject ''boom'')) \<and>
   Map_keys (results (evaluate failing_engine empty_session [])) = [''a'', ''t'', ''b''] \<and>
   Map_get (results (evaluate failing_engine empty_session [])) ''t'' =
     Some \<lparr>ScoringResult.score = - 1, confidence = 0, signals = [],
           details = Some ''Error: boom''\<rparr> \<and>
   Map_get (results (evaluate failing_engine empty_session [])) ''b'' =
     Some \<lparr>ScoringResult.score = 4 / 5, confidence = 1 / 2, signals = [], details = None\<rparr> \<and>
   world (evaluate failing_engine empty_session []) = [''a@1'', ''t@1'', ''b@1'']"
proof -
  have a: "algorithms failing_engine =
     [returning ''a'' ''1'' (1 / 5) 1] @ [throwing ''t'' ''1'' (ErrorObject ''boom'')] @
     [returning ''b'' ''1'' (4 / 5) (1 / 2)]"
    by (simp add: example_engines)
  have t: "fst (ScoringAlgorithm.score (throwing ''t'' ''1'' (ErrorObject ''boom'')) empty_session
         (world_after empty_session [returning ''a'' ''1'' (1 / 5) 1] []))
     = Inl (ErrorObject ''boom'')"
    by (simp add: example_algorithms)
  have k: "Map_keys (results (evaluate failing_engine empty_session [])) = [''a'', ''t'', ''b'']"
    "Map_get (results (evaluate failing_engine empty_session [])) ''b'' =
     Some \<lparr>ScoringResult.score = 4 / 5, confidence = 1 / 2, signals = [], details = None\<rparr>"
    by (simp_all add: example_evaluations Map_keys_def Map_get_def)
  have w: "world_after empty_session (algorithms failing_engine) [] = [''a@1'', ''t@1'', ''b@1'']"
    by (simp add: example_engines world_after_def example_algorithms)
  show ?thesis
    using a t k w evaluate_isolates_failures [OF a t]
    by (simp add: example_algorithms)
qed

text \<open>
  The claim as first stated fails when the throwing algorithm shares its name with one
  registered after it: the only entry under that name is the later algorithm's result.
\<close>

theorem evaluate_isolates_failures_counterexample:
  "algorithms shadowed_engine =
     [throwing ''a'' ''1'' (ErrorObject ''boom''), returning ''a'' ''2'' (1 / 2) 1] \<and>
   fst (ScoringAlgorithm.score (throwing ''a'' ''1'' (ErrorObject ''boom'')) empty_session [])
     = Inl (ErrorObject ''boom'') \<and>
   name (throwing ''a'' ''1'' (ErrorObject ''boom'')) = ''a'' \<and>
   results (evaluate shadowed_engine empty_session []) =
     [(''a'', \<lparr>ScoringResult.score = 1 / 2, confidence = 1, signals = [], details = None\<rparr>)] \<and>
   Map_get (results (evaluate shadowed_engine empty_session [])) ''a'' \<noteq>
     Some \<lparr>ScoringResult.score = - 1, confidence = 0, signals = [],
           details = Some ''Error: boom''\<rparr>"
  by (simp add: example_evaluations example_engines example_algorithms Map_get_def)

text \<open>
  Claim C9. For every session, if every result a registered algorithm returns has its
  score in [0,1] or equal to \<open>-1\<close> and its confidence in [0,1], then \<open>getCombinedScore\<close>
  returns \<open>-1\<close> or a value in [0,1].
\<close>

theorem combined_score_range:
  assumes "\<forall>a \<in> set (algorithms eng). \<forall>v r v'.
             ScoringAlgorithm.score a s v = (Inr r, v') \<longrightarrow>
               (ScoringResult.score r = - 1 \<or> (0 \<le> ScoringResult.score r \<and> ScoringResult.score r \<le> 1)) \<and>
               0 \<le> confidence r \<and> confidence r \<le> 1"
  shows "fst (getCombinedScore eng s w) = - 1 \<or>
         (0 \<le> fst (getCombinedScore eng s w) \<and> fst (getCombinedScore eng s w) \<le> 1)"
proof -
  let ?E = "eligible (results (evaluate eng s w))"
  have "\<forall>r \<in> set (Map_values (results (evaluate eng s w))). in_contract r"
    using evaluate_values_in_contract[of "algorithms eng" s w] assms evaluate_list[of eng s w]
    by (simp add: in_contract_def)
  then have "\<forall>r \<in> set ?E. in_contract r \<and> ScoringResult.score r \<ge> 0"
    by (simp add: eligible_def)
  then have t: "0 \<le> weighted_total ?E" "weighted_total ?E \<le> total_weight ?E"
    using in_contract_totals by blast+
  show ?thesis
  proof (cases "algorithms eng = [] \<or> total_weight ?E \<le> 0")
    case True
    then show ?thesis by (auto simp: getCombinedScore_eq)
  next
    case False
    then have W: "0 < total_weight ?E" by simp
    have "0 \<le> weighted_total ?E / total_weight ?E" using t W by simp
    moreover have "weighted_total ?E / total_weight ?E \<le> 1" using t W by simp
    ultimately show ?thesis using False W by (simp add: getCombinedScore_eq)
  qed
qed

theorem combined_score_range_witness:
  "algorithms two_engine = [returning ''a'' ''1'' (1 / 5) 1, returning ''b'' ''1'' (4 / 5) (1 / 2)] \<and>
   (fst (getCombinedScore two_engine empty_session []) = - 1 \<or>
    0 \<le> fst (getCombinedScore two_engine empty_session []) \<and>
    fst (getCombinedScore two_engine empty_session []) \<le> 1) \<and>
   fst (getCombinedScore two_engine empty_session []) = 2 / 5"
proof -
  have h: "\<forall>a \<in> set (algorithms two_engine). \<forall>v r v'.
             ScoringAlgorithm.score a empty_session v = (Inr r, v') \<longrightarrow>
               (ScoringResult.score r = - 1 \<or> (0 \<le> ScoringResult.score r \<and> ScoringResult.score r \<le> 1)) \<and>
               0 \<le> confidence r \<and> confidence r \<le> 1"
    by (auto simp: example_engines example_algorithms)
  have v: "fst (getCombinedScore two_engine empty_session []) = 2 / 5"
    by (simp add: getCombinedScore_eq example_evaluations example_engines
        eligible_def Map_values_def total_weight_def weighted_total_def)
  show ?thesis
    using combined_score_range [OF h, of "[]"] v by (simp add: example_engines)
qed

text \<open>
  Claim C10. When a name is registered twice (first by \<open>a\<close>, last by \<open>b\<close>), \<open>evaluate\<close>
  calls the score function of each of the two, at its place in registration order;
  the map it returns has one entry under that name, holding the outcome of \<open>b\<close>; and
  the name stands in the map where the registration of \<open>a\<close> put it: the keys are the
  names in order of first occurrence.
\<close>

theorem same_name_registered_twice:
  assumes "algorithms eng = pre @ [a] @ mid @ [b] @ post"
    and "name b = name a"
    and "\<forall>c \<in> set pre. name c \<noteq> name a"
    and "\<forall>c \<in> set post. name c \<noteq> name a"
  shows "world (evaluate eng s w) =
      world_after s post
        (snd (ScoringAlgorithm.score b s
           (world_after s mid
              (snd (ScoringAlgorithm.score a s (world_after s pre w)))))) \<and>
    length (filter (\<lambda>k. k = name a) (Map_keys (results (evaluate eng s w)))) = 1 \<and>
    Map_get (results (evaluate eng s w)) (name a) =
      Some (outcome (fst (ScoringAlgorithm.score b s (world_after s (pre @ [a] @ mid) w)))) \<and>
    Map_keys (results (evaluate eng s w)) = first_occurrences (map name (algorithms eng)) \<and>
    Map_keys (results (evaluate eng s w)) ! length (first_occurrences (map name pre)) = name a \<and>
    take (Suc (length (first_occurrences (map name pre)))) (Map_keys (results (evaluate eng s w)))
      = Map_keys (results (evaluate (eng\<lparr>algorithms := pre @ [a]\<rparr>) s w))"
proof -
  let ?keys = "Map_keys (results (evaluate eng s w))"
  let ?fp = "first_occurrences (map name pre)"
  have 1: "world (evaluate eng s w) =
      world_after s post
        (snd (ScoringAlgorithm.score b s
           (world_after s mid
              (snd (ScoringAlgorithm.score a s (world_after s pre w))))))"
    by (simp add: evaluate_world assms(1) world_after_def)
  have k: "?keys = first_occurrences (map name (algorithms eng))"
    by (rule evaluate_keys)
  have "name a \<in> set ?keys" "distinct ?keys"
    by (simp_all add: k assms(1))
  then have 2: "length (filter (\<lambda>k. k = name a) ?keys) = 1"
    by (simp add: distinct_count_one)
  have "algorithms eng = (pre @ [a] @ mid) @ [b] @ post" using assms(1) by simp
  from evaluate_get[OF this, of s w] assms(2) assms(4)
  have 3: "Map_get (results (evaluate eng s w)) (name a) =
      Some (outcome (fst (ScoringAlgorithm.score b s (world_after s (pre @ [a] @ mid) w))))"
    by (simp add: outcome_at_def)
  have n: "name a \<notin> set (map name pre)" using assms(3) by auto
  have "map name (algorithms eng) = (map name pre @ [name a]) @ map name (mid @ [b] @ post)"
    using assms(1) by simp
  then have "?keys = first_occurrences (map name pre @ [name a]) @
      filter (\<lambda>k. k \<notin> set (map name pre @ [name a])) (first_occurrences (map name (mid @ [b] @ post)))"
    unfolding k by (simp only: first_occurrences_append)
  then have split: "?keys = (?fp @ [name a]) @
      filter (\<lambda>k. k \<notin> set (map name pre @ [name a])) (first_occurrences (map name (mid @ [b] @ post)))"
    using n by (simp add: first_occurrences_snoc)
  have 4: "?keys ! length ?fp = name a"
    unfolding split by (simp add: nth_append)
  have "Map_keys (results (evaluate (eng\<lparr>algorithms := pre @ [a]\<rparr>) s w)) = ?fp @ [name a]"
    using n by (simp add: evaluate_keys first_occurrences_snoc)
  moreover have "take (Suc (length ?fp)) ?keys = ?fp @ [name a]"
    unfolding split by simp
  ultimately have 5: "take (Suc (length ?fp)) ?keys
      = Map_keys (results (evaluate (eng\<lparr>algorithms := pre @ [a]\<rparr>) s w))"
    by simp
  show ?thesis using 1 2 3 k 4 5 by simp
qed

theorem same_name_registered_twice_witness:
  "algorithms reregistered_engine =
     [returning ''b'' ''1'' 1 1] @ [returning ''a'' ''1'' (1 / 5) 1] @ [returning ''c'' ''1'' 0 1] @
     [returning ''a'' ''2'' (4 / 5) (1 / 2)] @ [] \<and>
   name (returning ''a'' ''2'' (4 / 5) (1 / 2)) = name (returning ''a'' ''1'' (1 / 5) 1) \<and>
   name (returning ''b'' ''1'' 1 1) \<noteq> name (returning ''a'' ''1'' (1 / 5) 1) \<and>
   world (evaluate reregistered_engine empty_session []) = [''b@1'', ''a@1'', ''c@1'', ''a@2''] \<and>
   Map_keys (results (evaluate reregistered_engine empty_session [])) = [''b'', ''a'', ''c''] \<and>
   Map_get (results (evaluate reregistered_engine empty_session [])) ''a'' =
     Some \<lparr>ScoringResult.score = 4 / 5, confidence = 1 / 2, signals = [], details = None\<rparr> \<and>
   Map_keys (results (evaluate reregistered_engine empty_session [])) ! 1 = ''a''"
proof -
  have a: "algorithms reregistered_engine =
     [returning ''b'' ''1'' 1 1] @ [returning ''a'' ''1'' (1 / 5) 1] @ [returning ''c'' ''1'' 0 1] @
     [returning ''a'' ''2'' (4 / 5) (1 / 2)] @ []"
    by (simp add: example_engines)
  have n: "name (returning ''a'' ''2'' (4 / 5) (1 / 2)) = name (returning ''a'' ''1'' (1 / 5) 1)"
    by (simp add: example_algorithms)
  have p: "\<forall>c \<in> set [returning ''b'' ''1'' 1 1]. name c \<noteq> name (returning ''a'' ''1'' (1 / 5) 1)"
    by (simp add: example_algorithms)
  have q: "\<forall>c \<in> set ([] :: string list ScoringAlgorithm list).
             name c \<noteq> name (returning ''a'' ''1'' (1 / 5) 1)"
    by simp
  show ?thesis
    using a same_name_registered_twice [OF a n p q, of empty_session "[]"]
    by (simp add: example_algorithms world_after_def)
qed


section \<open>The example of claim C1 in binary64\<close>

text \<open>
  The literals \<open>0.2\<close> and \<open>0.8\<close> denote the binary64 numbers nearest to 1/5 and 4/5. With
  them the code adds \<open>0.2 \<times> 1.0\<close> and \<open>0.8 \<times> 0.5\<close> to \<open>0.6000000000000001\<close> (the exact sum
  lies halfway between two binary64 numbers) and divides by 1.5: the result is
  \<open>7205759403792795 / 2^54\<close>, printed \<open>0.4000000000000001\<close>, above 2/5 by less than
  \<open>1 / 10^16\<close>. On the input of the witness of claim C1 the two models agree.
\<close>

lemma combined_score_binary64_example:
  "binary64 (1 / 5) = Some (3602879701896397 / 18014398509481984) \<and>
   binary64 (4 / 5) = Some (3602879701896397 / 4503599627370496) \<and>
   getCombinedScore_binary64 binary64_two_engine empty_session []
     = Some (7205759403792795 / 18014398509481984) \<and>
   (2 / 5 :: real) < 7205759403792795 / 18014398509481984 \<and>
   (7205759403792795 / 18014398509481984 :: real) < 2 / 5 + 1 / 10 ^ 16 \<and>
   getCombinedScore_binary64 exact_engine empty_session [] = Some (1 / 2) \<and>
   fst (getCombinedScore exact_engine empty_session []) = 1 / 2"
  by (simp add: getCombinedScore_binary64_def getCombinedScore_def binary64_engines Map_size_def
      Map_values_def combine_body_binary64_def combine_body_def binary64_values)


end
